(* ===== verification/Prelude.thy ===== *)
theory Prelude
  imports Complex_Main "HOL-Library.Monad_Syntax"
begin

text \<open>
  Shared vocabulary of the development: the collections of simplification rules the
  component theories feed, the model of object references, and the JavaScript array
  builtins the sources call (\<open>findIndex\<close>, \<open>reduce\<close>) with the list lemmas that the
  component proofs share.
\<close>

named_theorems cart_simps \<open>simplification rules of the cart store model\<close>
named_theorems js_simps \<open>evaluation rules of the JavaScript builtins\<close>

text \<open>
  A JavaScript object reference is an address of a heap; a heap is the list of the
  objects allocated so far, so a fresh address is the length of that list.
\<close>

type_synonym ref = nat

section \<open>Array.prototype.findIndex\<close>

text \<open>
  \<open>xs.findIndex(p)\<close> is the index of the first element that satisfies \<open>p\<close>, or \<open>-1\<close>.
  The search itself is \<open>find_idx\<close>; \<open>findIndex\<close> adds the JavaScript encoding of
  ``not found''.
\<close>

fun find_idx :: "('a \<Rightarrow> bool) \<Rightarrow> 'a list \<Rightarrow> nat option" where
  "find_idx p [] = None"
| "find_idx p (x # xs) = (if p x then Some 0 else map_option Suc (find_idx p xs))"

definition findIndex :: "('a \<Rightarrow> bool) \<Rightarrow> 'a list \<Rightarrow> int" where
  "findIndex p xs = (case find_idx p xs of None \<Rightarrow> -1 | Some i \<Rightarrow> int i)"

lemma find_idx_None_iff [js_simps]: "find_idx p xs = None \<longleftrightarrow> (\<forall>x \<in> set xs. \<not> p x)"
  by (induction xs) auto

lemma find_idx_Some:
  "find_idx p xs = Some i \<Longrightarrow> i < length xs \<and> p (xs ! i) \<and> (\<forall>j < i. \<not> p (xs ! j))"
proof (induction xs arbitrary: i)
  case Nil
  then show ?case by simp
next
  case (Cons x xs)
  show ?case
  proof (cases "p x")
    case True
    with Cons.prems show ?thesis by simp
  next
    case False
    with Cons.prems obtain i' where "find_idx p xs = Some i'" and "i = Suc i'"
      by auto
    with Cons.IH False show ?thesis
      by (auto simp: less_Suc_eq_0_disj)
  qed
qed

lemma find_idx_first:
  "i < length xs \<Longrightarrow> p (xs ! i) \<Longrightarrow> \<forall>j < i. \<not> p (xs ! j) \<Longrightarrow> find_idx p xs = Some i"
proof (induction xs arbitrary: i)
  case Nil
  then show ?case by simp
next
  case (Cons x xs)
  then show ?case
    by (cases i) (auto, metis Suc_less_eq nth_Cons_Suc)
qed

lemma findIndex_nonneg_iff [js_simps]: "0 \<le> findIndex p xs \<longleftrightarrow> (\<exists>x \<in> set xs. p x)"
  using find_idx_None_iff [of p xs] by (auto simp: findIndex_def split: option.splits)

lemma findIndex_Some: "find_idx p xs = Some i \<Longrightarrow> findIndex p xs = int i"
  by (simp add: findIndex_def)

text \<open>Where at most one element satisfies the test, the first one is that one.\<close>

lemma find_idx_unique:
  assumes "distinct (map f xs)" and "i < length xs" and "f (xs ! i) = k"
  shows "find_idx (\<lambda>x. f x = k) xs = Some i"
proof (rule find_idx_first)
  show "\<forall>j < i. \<not> f (xs ! j) = k"
    using assms by (auto simp: distinct_conv_nth)
qed (use assms in auto)

section \<open>Array.prototype.reduce with an addition\<close>

text \<open>
  \<open>xs.reduce((s, x) => s + f(x), a)\<close> is a left fold. In a monoid it is the sum of the
  mapped list, whatever the order of the additions.
\<close>

lemma foldl_plus_sum_list:
  "foldl (\<lambda>s x. s + f x) a xs = a + sum_list (map f xs)"
  for a :: "'b::monoid_add"
  by (induction xs arbitrary: a) (simp_all add: add.assoc)

lemma foldl_plus_zero [js_simps]:
  "foldl (\<lambda>s x. s + f x) 0 xs = sum_list (map f xs)"
  for f :: "'a \<Rightarrow> 'b::monoid_add"
  by (simp add: foldl_plus_sum_list)

section \<open>Lists updated at one position\<close>

lemma sum_list_map_update:
  "i < length xs \<Longrightarrow>
   sum_list (map f (xs[i := x])) + f (xs ! i) = sum_list (map f xs) + f x"
  for f :: "'a \<Rightarrow> 'b::comm_monoid_add"
proof (induction xs arbitrary: i)
  case Nil
  then show ?case by simp
next
  case (Cons y ys)
  then show ?case
    by (cases i) (simp_all add: ac_simps)
qed

lemma map_id_on_set: "(\<And>x. x \<in> set xs \<Longrightarrow> f x = x) \<Longrightarrow> map f xs = xs"
  by (induction xs) auto

lemma find_idx_append:
  "find_idx p (xs @ ys) =
     (case find_idx p xs of
        None \<Rightarrow> map_option (\<lambda>j. length xs + j) (find_idx p ys)
      | Some i \<Rightarrow> Some i)"
  by (induction xs; cases "find_idx p ys") (auto split: option.splits)

lemma filter_remove_nth:
  assumes "distinct (map f xs)" and "i < length xs"
  shows "filter (\<lambda>x. f x \<noteq> f (xs ! i)) xs = take i xs @ drop (Suc i) xs"
proof -
  have split: "xs = take i xs @ xs ! i # drop (Suc i) xs"
    using assms(2) by (simp add: id_take_nth_drop)
  have "distinct (map f (take i xs @ xs ! i # drop (Suc i) xs))"
    using assms(1) split by metis
  then have "\<forall>x \<in> set (take i xs). f x \<noteq> f (xs ! i)"
    "\<forall>x \<in> set (drop (Suc i) xs). f x \<noteq> f (xs ! i)"
    by (auto simp: image_iff)
  then have "filter (\<lambda>x. f x \<noteq> f (xs ! i)) (take i xs) = take i xs"
    "filter (\<lambda>x. f x \<noteq> f (xs ! i)) (drop (Suc i) xs) = drop (Suc i) xs"
    by (auto simp: filter_id_conv)
  then show ?thesis
    by (subst split) simp
qed

lemma append_sep_eq:
  "c \<notin> set a \<Longrightarrow> c \<notin> set a' \<Longrightarrow> a @ c # b = a' @ c # b' \<Longrightarrow> a = a' \<and> b = b'"
  by (induction a arbitrary: a') (auto simp: Cons_eq_append_conv append_eq_Cons_conv)

text \<open>A separator that does not occur after its last occurrence splits a list uniquely.\<close>

lemma append_last_sep_eq:
  assumes "c \<notin> set b" and "c \<notin> set b'" and "a @ c # b = a' @ c # b'"
  shows "a = a' \<and> b = b'"
proof -
  have "rev b @ c # rev a = rev b' @ c # rev a'"
    using arg_cong [OF assms(3), of rev] by simp
  with assms(1,2) have "rev b = rev b' \<and> rev a = rev a'"
    by (intro append_sep_eq [of c]) simp_all
  then show ?thesis by simp
qed

section \<open>Reading a heap through a list of references\<close>

text \<open>
  A heap is a list of objects and a reference an index into it. These are the facts the
  refinement proofs share: a search through references is a search through the objects
  they point to, an in-place update through one of several distinct references changes
  one position, and appending to the heap leaves old references alone.
\<close>

lemma find_idx_map: "find_idx p (map f xs) = find_idx (\<lambda>x. p (f x)) xs"
  by (induction xs) simp_all

lemma map_nth_update_distinct:
  assumes "distinct rs" and "i < length rs" and "\<forall>r \<in> set rs. r < length h"
  shows "map ((!) (h[rs ! i := x])) rs = (map ((!) h) rs)[i := x]"
proof (rule nth_equalityI)
  fix j
  assume "j < length (map ((!) (h[rs ! i := x])) rs)"
  then have j: "j < length rs" by simp
  show "map ((!) (h[rs ! i := x])) rs ! j = (map ((!) h) rs)[i := x] ! j"
  proof (cases "j = i")
    case True
    with j assms(3) show ?thesis
      by simp
  next
    case False
    with assms j have "rs ! j \<noteq> rs ! i"
      by (simp add: nth_eq_iff_index_eq)
    with False j show ?thesis
      by simp
  qed
qed simp

lemma map_nth_append [simp]:
  "\<forall>r \<in> set rs. r < length h \<Longrightarrow> map ((!) (h @ ys)) rs = map ((!) h) rs"
  by (simp add: nth_append)

lemma find_idx_update:
  assumes "find_idx p xs = Some i" and "p x"
  shows "find_idx p (xs[i := x]) = Some i"
proof -
  have "i < length xs" "\<forall>j<i. \<not> p (xs ! j)"
    using find_idx_Some [OF assms(1)] by auto
  then show ?thesis
    using assms(2) by (intro find_idx_first) simp_all
qed

end
