(* ===== verification/JsNum.thy ===== *)
theory JsNum
  imports Prelude
begin

text \<open>
  JavaScript numbers as the sources use them. A value is a finite number, one of the two
  infinities, or NaN. Finite numbers are exact rationals: the model keeps IEEE's special
  values and their propagation (NaN absorbs, \<open>Infinity + -Infinity\<close> is NaN,
  \<open>0 * Infinity\<close> is NaN, every comparison with NaN is false) but not rounding, overflow
  to Infinity by magnitude, or the sign of zero. The prices and quantities of the cart are
  decimal amounts for which double rounding is not the behaviour under study.

  The theory gives addition its \<open>comm_monoid_add\<close> instance and multiplication its
  \<open>comm_monoid_mult\<close> instance (so the library's sums and its AC rules apply to cart
  totals), the relational operators of the code, \<open>parseFloat\<close>, and the decimal
  rendering of integers used by template literals.
\<close>

datatype jsnum = Fin rat | PInf | NInf | NaN

section \<open>Arithmetic\<close>

fun js_add :: "jsnum \<Rightarrow> jsnum \<Rightarrow> jsnum" where
  "js_add NaN y = NaN"
| "js_add x NaN = NaN"
| "js_add PInf NInf = NaN"
| "js_add NInf PInf = NaN"
| "js_add PInf y = PInf"
| "js_add x PInf = PInf"
| "js_add NInf y = NInf"
| "js_add x NInf = NInf"
| "js_add (Fin a) (Fin b) = Fin (a + b)"

text \<open>The sign of a product with an infinity: positive when the signs agree.\<close>

fun js_mul :: "jsnum \<Rightarrow> jsnum \<Rightarrow> jsnum" where
  "js_mul NaN y = NaN"
| "js_mul x NaN = NaN"
| "js_mul (Fin a) (Fin b) = Fin (a * b)"
| "js_mul (Fin a) y = (if a = 0 then NaN else if (0 < a) = (y = PInf) then PInf else NInf)"
| "js_mul x (Fin b) = (if b = 0 then NaN else if (0 < b) = (x = PInf) then PInf else NInf)"
| "js_mul x y = (if x = y then PInf else NInf)"

instantiation jsnum :: comm_monoid_add
begin

definition zero_jsnum :: jsnum where
  "zero_jsnum = Fin 0"

definition plus_jsnum :: "jsnum \<Rightarrow> jsnum \<Rightarrow> jsnum" where
  "plus_jsnum = js_add"

instance
proof
  fix a b c :: jsnum
  show "a + b + c = a + (b + c)"
    by (cases a; cases b; cases c) (simp_all add: plus_jsnum_def ac_simps)
  show "a + b = b + a"
    by (cases a; cases b) (simp_all add: plus_jsnum_def ac_simps)
  show "0 + a = a"
    by (cases a) (simp_all add: plus_jsnum_def zero_jsnum_def)
qed

end

instantiation jsnum :: comm_monoid_mult
begin

definition one_jsnum :: jsnum where
  "one_jsnum = Fin 1"

definition times_jsnum :: "jsnum \<Rightarrow> jsnum \<Rightarrow> jsnum" where
  "times_jsnum = js_mul"

instance
proof
  fix a b c :: jsnum
  show "a * b * c = a * (b * c)"
    by (cases a; cases b; cases c)
      (auto simp: times_jsnum_def zero_less_mult_iff mult_less_0_iff ac_simps)
  show "a * b = b * a"
    by (cases a; cases b) (auto simp: times_jsnum_def ac_simps)
  show "1 * a = a"
    by (cases a) (simp_all add: times_jsnum_def one_jsnum_def)
qed

end

section \<open>Relational operators and strict equality\<close>

text \<open>
  The abstract relational comparison of ECMAScript: \<open>undefined\<close> (a NaN operand) makes
  every operator false.
\<close>

fun js_lt :: "jsnum \<Rightarrow> jsnum \<Rightarrow> bool" where
  "js_lt NaN y = False"
| "js_lt x NaN = False"
| "js_lt (Fin a) (Fin b) = (a < b)"
| "js_lt NInf y = (y \<noteq> NInf)"
| "js_lt x PInf = (x \<noteq> PInf)"
| "js_lt x y = False"

definition js_le :: "jsnum \<Rightarrow> jsnum \<Rightarrow> bool" where
  "js_le a b \<longleftrightarrow> a \<noteq> NaN \<and> b \<noteq> NaN \<and> \<not> js_lt b a"

definition js_gt :: "jsnum \<Rightarrow> jsnum \<Rightarrow> bool" where
  "js_gt a b \<longleftrightarrow> js_lt b a"

definition js_strict_eq :: "jsnum \<Rightarrow> jsnum \<Rightarrow> bool" where
  "js_strict_eq a b \<longleftrightarrow> a \<noteq> NaN \<and> a = b"

text \<open>Unary minus, used by \<open>parseFloat\<close> for a leading sign.\<close>

fun js_neg :: "jsnum \<Rightarrow> jsnum" where
  "js_neg (Fin a) = Fin (- a)"
| "js_neg PInf = NInf"
| "js_neg NInf = PInf"
| "js_neg NaN = NaN"

section \<open>Evaluation of the operators\<close>

lemma js_add_Fin [simp, js_simps]: "Fin a + Fin b = Fin (a + b)"
  by (simp add: plus_jsnum_def)

lemma js_add_NaN [simp, js_simps]: "NaN + x = NaN" "x + NaN = NaN"
  by (simp_all add: plus_jsnum_def) (cases x; simp)

lemma js_mul_Fin [simp, js_simps]: "Fin a * Fin b = Fin (a * b)"
  by (simp add: times_jsnum_def)

lemma js_mul_NaN [simp, js_simps]: "NaN * x = NaN" "x * NaN = NaN"
  by (simp_all add: times_jsnum_def) (cases x; simp)

lemma js_zero_Fin [simp, js_simps]: "0 = Fin 0"
  by (simp add: zero_jsnum_def)

lemma js_add_Fin_0 [simp, js_simps]: "x + Fin 0 = x" "Fin 0 + x = x"
  by (metis add.right_neutral add.left_neutral js_zero_Fin)+

lemma js_mul_Fin_1 [simp, js_simps]: "x * Fin 1 = x" "Fin 1 * x = x"
  by (simp_all add: one_jsnum_def [symmetric])

text \<open>A sum of finite numbers is finite; a NaN anywhere makes the sum NaN.\<close>

lemma sum_list_Fin: "sum_list (map (\<lambda>x. Fin (f x)) xs) = Fin (sum_list (map f xs))"
  by (induction xs) simp_all

lemma sum_list_NaN: "NaN \<in> set xs \<Longrightarrow> sum_list xs = NaN"
  by (induction xs) auto

lemma js_le_Fin [simp, js_simps]: "js_le (Fin a) (Fin b) \<longleftrightarrow> a \<le> b"
  by (auto simp: js_le_def)

lemma js_gt_Fin [simp, js_simps]: "js_gt (Fin a) (Fin b) \<longleftrightarrow> b < a"
  by (simp add: js_gt_def)

lemma js_NaN_compare [simp, js_simps]:
  "\<not> js_le NaN x" "\<not> js_le x NaN" "\<not> js_gt NaN x" "\<not> js_gt x NaN"
  by (simp_all add: js_le_def js_gt_def) (cases x; simp)

lemma js_strict_eq_NaN [simp]: "\<not> js_strict_eq NaN x"
  by (simp add: js_strict_eq_def)

section \<open>Decimal digits\<close>

definition is_digit :: "char \<Rightarrow> bool" where
  "is_digit c \<longleftrightarrow> (48::nat) \<le> of_char c \<and> of_char c \<le> (57::nat)"

definition digit_val :: "char \<Rightarrow> nat" where
  "digit_val c = of_char c - 48"

definition digits_val :: "string \<Rightarrow> nat" where
  "digits_val ds = foldl (\<lambda>n d. 10 * n + digit_val d) 0 ds"

lemma digits_val_Nil [simp]: "digits_val [] = 0"
  by (simp add: digits_val_def)

lemma foldl_digits_acc:
  "foldl (\<lambda>n d. 10 * n + digit_val d) a ds = a * 10 ^ length ds + digits_val ds"
proof (induction ds arbitrary: a)
  case Nil
  then show ?case by simp
next
  case (Cons d ds)
  have step: "foldl (\<lambda>n d. 10 * n + digit_val d) a (d # ds)
      = (10 * a + digit_val d) * 10 ^ length ds + digits_val ds"
    using Cons.IH [of "10 * a + digit_val d"] by simp
  have "digits_val (d # ds) = digit_val d * 10 ^ length ds + digits_val ds"
    using Cons.IH [of "digit_val d"] by (simp add: digits_val_def)
  with step show ?case
    by (simp add: algebra_simps)
qed

lemma digits_val_append:
  "digits_val (xs @ ys) = digits_val xs * 10 ^ length ys + digits_val ys"
  using foldl_digits_acc [of "digits_val xs" ys] by (simp add: digits_val_def)

lemma digits_val_snoc [simp]: "digits_val (ds @ [d]) = 10 * digits_val ds + digit_val d"
  by (simp add: digits_val_append digits_val_def)

text \<open>Number.prototype.toString on a non-negative integer: its decimal digits.\<close>

fun show_nat :: "nat \<Rightarrow> string" where
  "show_nat n =
     (if n < 10 then [char_of (48 + n)] else show_nat (n div 10) @ [char_of (48 + n mod 10)])"

declare show_nat.simps [simp del]

definition show_int :: "int \<Rightarrow> string" where
  "show_int i = (if i < 0 then CHR ''-'' # show_nat (nat (- i)) else show_nat (nat i))"

lemma digit_char [simp]: "d < 10 \<Longrightarrow> is_digit (char_of (48 + d))"
  for d :: nat
  by (simp add: is_digit_def of_char_of)

lemma digit_val_char [simp]: "d < 10 \<Longrightarrow> digit_val (char_of (48 + d)) = d"
  for d :: nat
  by (simp add: digit_val_def of_char_of)

lemma digits_val_single [simp]: "digits_val [d] = digit_val d"
  by (simp add: digits_val_def)

text \<open>The ten digit characters, for evaluating \<open>show_nat\<close> on numerals.\<close>

lemma char_of_digit [simp]:
  "char_of (48::nat) = CHR ''0''" "char_of (49::nat) = CHR ''1''" "char_of (50::nat) = CHR ''2''"
  "char_of (51::nat) = CHR ''3''" "char_of (52::nat) = CHR ''4''" "char_of (53::nat) = CHR ''5''"
  "char_of (54::nat) = CHR ''6''" "char_of (55::nat) = CHR ''7''" "char_of (56::nat) = CHR ''8''"
  "char_of (57::nat) = CHR ''9''"
  by code_simp+

lemma show_nat_digits: "\<forall>c \<in> set (show_nat n). is_digit c"
proof (induction n rule: show_nat.induct)
  case (1 n)
  then show ?case
    by (subst show_nat.simps) auto
qed

lemma show_nat_nonempty [simp]: "show_nat n \<noteq> []"
  by (subst show_nat.simps) simp

lemma digits_val_show_nat [simp]: "digits_val (show_nat n) = n"
proof (induction n rule: show_nat.induct)
  case (1 n)
  then show ?case
    by (subst show_nat.simps) auto
qed

lemma show_nat_not_minus [simp]: "CHR ''-'' \<notin> set (show_nat n)"
  using show_nat_digits [of n] by (auto simp: is_digit_def)

lemma show_nat_inj: "show_nat a = show_nat b \<Longrightarrow> a = b"
  by (metis digits_val_show_nat)

lemma show_int_inj:
  assumes "show_int a = show_int b"
  shows "a = b"
proof (cases "a < 0"; cases "b < 0")
  assume "a < 0" "b < 0"
  with assms have "show_nat (nat (- a)) = show_nat (nat (- b))"
    by (simp add: show_int_def)
  with \<open>a < 0\<close> \<open>b < 0\<close> show ?thesis
    by (auto dest: show_nat_inj)
next
  assume "\<not> a < 0" "\<not> b < 0"
  with assms have "show_nat (nat a) = show_nat (nat b)"
    by (simp add: show_int_def)
  with \<open>\<not> a < 0\<close> \<open>\<not> b < 0\<close> show ?thesis
    by (auto dest: show_nat_inj)
next
  assume "a < 0" "\<not> b < 0"
  with assms have "show_nat (nat b) = CHR ''-'' # show_nat (nat (- a))"
    by (simp add: show_int_def)
  then have "CHR ''-'' \<in> set (show_nat (nat b))"
    by (simp only: list.set_intros(1))
  then show ?thesis by simp
next
  assume "\<not> a < 0" "b < 0"
  with assms have "show_nat (nat a) = CHR ''-'' # show_nat (nat (- b))"
    by (simp add: show_int_def)
  then have "CHR ''-'' \<in> set (show_nat (nat a))"
    by (simp only: list.set_intros(1))
  then show ?thesis by simp
qed

section \<open>parseFloat\<close>

text \<open>
  \<open>parseFloat(s)\<close> skips leading white space (TAB, LF, VT, FF, CR, space, no-break
  space; characters are taken as Latin-1 code units) and reads the longest prefix that is a
  \<open>StrDecimalLiteral\<close>: an optional sign, then \<open>Infinity\<close> or digits with an
  optional fraction and an optional exponent. With no such prefix the result is NaN.
\<close>

definition js_whitespace :: "char \<Rightarrow> bool" where
  "js_whitespace c \<longleftrightarrow> of_char c \<in> {9, 10, 11, 12, 13, 32, 160 :: nat}"

definition unsigned_digits :: "string \<Rightarrow> int option" where
  "unsigned_digits r =
     (let ds = takeWhile is_digit r in if ds = [] then None else Some (int (digits_val ds)))"

definition signed_digits :: "string \<Rightarrow> int option" where
  "signed_digits r =
     (case r of
        [] \<Rightarrow> None
      | c # r' \<Rightarrow>
          if c = CHR ''+'' then unsigned_digits r'
          else if c = CHR ''-'' then map_option uminus (unsigned_digits r')
          else unsigned_digits r)"

text \<open>The exponent of an \<open>ExponentPart\<close> at the start of the text, 0 when there is none.\<close>

definition exponent_part :: "string \<Rightarrow> int" where
  "exponent_part r =
     (case r of
        [] \<Rightarrow> 0
      | c # r' \<Rightarrow>
          if c = CHR ''e'' \<or> c = CHR ''E''
          then (case signed_digits r' of None \<Rightarrow> 0 | Some e \<Rightarrow> e)
          else 0)"

definition pow10 :: "int \<Rightarrow> rat" where
  "pow10 e = (if 0 \<le> e then 10 ^ nat e else 1 / 10 ^ nat (- e))"

definition unsigned_decimal :: "string \<Rightarrow> jsnum" where
  "unsigned_decimal r =
     (if take 8 r = ''Infinity'' then PInf
      else
        let ip = takeWhile is_digit r;
            r1 = dropWhile is_digit r;
            (fp, r2) =
              (case r1 of
                 [] \<Rightarrow> ([], [])
               | c # r' \<Rightarrow>
                   if c = CHR ''.'' then (takeWhile is_digit r', dropWhile is_digit r')
                   else ([], r1))
        in if ip = [] \<and> fp = [] then NaN
           else Fin (of_nat (digits_val (ip @ fp)) / 10 ^ length fp * pow10 (exponent_part r2)))"

definition parseFloat :: "string \<Rightarrow> jsnum" where
  "parseFloat s =
     (let t = dropWhile js_whitespace s in
      case t of
        [] \<Rightarrow> NaN
      | c # r \<Rightarrow>
          if c = CHR ''-'' then js_neg (unsigned_decimal r)
          else if c = CHR ''+'' then unsigned_decimal r
          else unsigned_decimal t)"

end
