(* ===== verification/JsonValue.thy ===== *)
theory JsonValue
  imports JsNum
begin

text \<open>
  JavaScript values and JSON at the level of trees. \<open>jsval\<close> is the part of the
  JavaScript value space the cart stores and compares (no functions, symbols or
  \<open>toJSON\<close> methods); an object is its list of own properties in property-creation
  order. \<open>json\<close> is a JSON document. \<open>json_of\<close> is the tree that
  \<open>JSON.stringify\<close> prints (\<open>None\<close> where it returns \<open>undefined\<close>), \<open>of_json\<close>
  the value \<open>JSON.parse\<close> builds. JSON text is not modelled: the grammar is
  unambiguous, so two documents print to the same text exactly when they are the same
  tree, and comparing \<open>JSON.stringify\<close> results is comparing \<open>json_of\<close> results.
\<close>

datatype jsval =
    JUndef
  | JNull
  | JBool bool
  | JNumber jsnum
  | JString string
  | JArray "jsval list"
  | JObject "(string \<times> jsval) list"

datatype json =
    JsonNull
  | JsonBool bool
  | JsonNum rat
  | JsonStr string
  | JsonArr "json list"
  | JsonObj "(string \<times> json) list"

section \<open>Property order\<close>

text \<open>
  \<open>OrdinaryOwnPropertyKeys\<close>: keys that are array indices (canonical decimal numerals
  below \<open>2^32 - 1\<close>) come first in ascending numeric order, then the other string keys
  in creation order. \<open>JSON.stringify\<close> lists properties in this order.
\<close>

definition is_array_index :: "string \<Rightarrow> bool" where
  "is_array_index k \<longleftrightarrow>
     k \<noteq> [] \<and> (\<forall>c \<in> set k. is_digit c) \<and> (k = ''0'' \<or> hd k \<noteq> CHR ''0'')
     \<and> digits_val k < 4294967295"

definition prop_order :: "(string \<times> 'a) list \<Rightarrow> (string \<times> 'a) list" where
  "prop_order ps =
     sort_key (\<lambda>p. digits_val (fst p)) (filter (\<lambda>p. is_array_index (fst p)) ps)
     @ filter (\<lambda>p. \<not> is_array_index (fst p)) ps"

section \<open>JSON.stringify and JSON.parse\<close>

text \<open>
  \<open>SerializeJSONProperty\<close>: \<open>undefined\<close> is omitted (a property) or \<open>null\<close>
  (an array element); a non-finite number is \<open>null\<close>.
\<close>

fun json_of :: "jsval \<Rightarrow> json option" where
  "json_of JUndef = None"
| "json_of JNull = Some JsonNull"
| "json_of (JBool b) = Some (JsonBool b)"
| "json_of (JNumber n) = Some (case n of Fin r \<Rightarrow> JsonNum r | _ \<Rightarrow> JsonNull)"
| "json_of (JString s) = Some (JsonStr s)"
| "json_of (JArray vs) =
     Some (JsonArr (map (\<lambda>v. case json_of v of None \<Rightarrow> JsonNull | Some j \<Rightarrow> j) vs))"
| "json_of (JObject ps) =
     Some (JsonObj (prop_order
       (concat (map (\<lambda>(k, v). case json_of v of None \<Rightarrow> [] | Some j \<Rightarrow> [(k, j)]) ps))))"

fun of_json :: "json \<Rightarrow> jsval" where
  "of_json JsonNull = JNull"
| "of_json (JsonBool b) = JBool b"
| "of_json (JsonNum r) = JNumber (Fin r)"
| "of_json (JsonStr s) = JString s"
| "of_json (JsonArr js) = JArray (map of_json js)"
| "of_json (JsonObj ps) = JObject (map (\<lambda>(k, j). (k, of_json j)) ps)"

text \<open>\<open>JSON.stringify(a) === JSON.stringify(b)\<close>, with \<open>undefined === undefined\<close>.\<close>

definition stringify_eq :: "jsval \<Rightarrow> jsval \<Rightarrow> bool" where
  "stringify_eq a b \<longleftrightarrow> json_of a = json_of b"

text \<open>
  A property read back from a parsed document: a property that \<open>JSON.stringify\<close>
  omitted reads as \<open>undefined\<close>.
\<close>

definition reparse :: "jsval \<Rightarrow> jsval" where
  "reparse v = (case json_of v of None \<Rightarrow> JUndef | Some j \<Rightarrow> of_json j)"

section \<open>Canonical documents\<close>

text \<open>
  A document is canonical when every object lists distinct keys in property order: these
  are the documents \<open>JSON.stringify\<close> prints from objects with distinct keys.
\<close>

fun json_canon :: "json \<Rightarrow> bool" where
  "json_canon (JsonArr js) \<longleftrightarrow> (\<forall>j \<in> set js. json_canon j)"
| "json_canon (JsonObj ps) \<longleftrightarrow>
     distinct (map fst ps) \<and> prop_order ps = ps \<and> (\<forall>p \<in> set ps. json_canon (snd p))"
| "json_canon _ \<longleftrightarrow> True"

text \<open>A value is well formed when no object lists a key twice, as in JavaScript.\<close>

fun jsval_wf :: "jsval \<Rightarrow> bool" where
  "jsval_wf (JArray vs) \<longleftrightarrow> (\<forall>v \<in> set vs. jsval_wf v)"
| "jsval_wf (JObject ps) \<longleftrightarrow> distinct (map fst ps) \<and> (\<forall>p \<in> set ps. jsval_wf (snd p))"
| "jsval_wf _ \<longleftrightarrow> True"

section \<open>Lemmas on the property order\<close>

lemma set_prop_order [simp]: "set (prop_order ps) = set ps"
  by (auto simp: prop_order_def)

lemma distinct_prop_order:
  assumes "distinct (map fst ps)"
  shows "distinct (map fst (prop_order ps))"
proof -
  have "distinct ps"
    using assms by (simp add: distinct_map)
  then have "distinct (prop_order ps)"
    by (auto simp: prop_order_def)
  moreover have "inj_on fst (set ps)"
    using assms by (simp add: distinct_map)
  ultimately show ?thesis
    by (simp add: distinct_map)
qed

lemma prop_order_idem [simp]: "prop_order (prop_order ps) = prop_order ps"
proof -
  let ?I = "\<lambda>p. is_array_index (fst p)"
  let ?s = "sort_key (\<lambda>p. digits_val (fst p)) (filter ?I ps)"
  have idx: "filter ?I (prop_order ps) = ?s"
    by (simp add: prop_order_def filter_sort)
  have rest: "filter (\<lambda>p. \<not> ?I p) (prop_order ps) = filter (\<lambda>p. \<not> ?I p) ps"
    by (simp add: prop_order_def filter_sort)
  have sorted: "sort_key (\<lambda>p. digits_val (fst p)) ?s = ?s"
    by (rule sort_key_id_if_sorted) simp
  have "prop_order (prop_order ps)
      = sort_key (\<lambda>p. digits_val (fst p)) (filter ?I (prop_order ps))
        @ filter (\<lambda>p. \<not> ?I p) (prop_order ps)"
    by (rule prop_order_def)
  also have "\<dots> = ?s @ filter (\<lambda>p. \<not> ?I p) ps"
    using idx rest sorted by simp
  also have "\<dots> = prop_order ps"
    by (simp add: prop_order_def)
  finally show ?thesis .
qed

text \<open>The properties \<open>JSON.stringify\<close> keeps, before it orders them.\<close>

lemma keys_defined_props:
  "map fst (concat (map (\<lambda>(k, v). case f v of None \<Rightarrow> [] | Some j \<Rightarrow> [(k, j)]) ps))
   = map fst (filter (\<lambda>p. f (snd p) \<noteq> None) ps)"
  by (induction ps) (auto split: option.splits)

lemma distinct_defined_props:
  "distinct (map fst ps) \<Longrightarrow>
   distinct (map fst (concat (map (\<lambda>(k, v). case f v of None \<Rightarrow> [] | Some j \<Rightarrow> [(k, j)]) ps)))"
  unfolding keys_defined_props by (simp add: distinct_map_filter)

lemma defined_props_all:
  assumes "\<And>k v. (k, v) \<in> set ps \<Longrightarrow> f (h v) = Some (g v)"
  shows "concat (map (\<lambda>(k, v). case f v of None \<Rightarrow> [] | Some j \<Rightarrow> [(k, j)])
            (map (\<lambda>(k, v). (k, h v)) ps))
         = map (\<lambda>(k, v). (k, g v)) ps"
  using assms
proof (induction ps)
  case Nil
  then show ?case by simp
next
  case (Cons p ps)
  obtain k v where p: "p = (k, v)" by (cases p)
  have "f (h v) = Some (g v)"
    using Cons.prems [of k v] p by simp
  moreover have "concat (map (\<lambda>(k, v). case f v of None \<Rightarrow> [] | Some j \<Rightarrow> [(k, j)])
            (map (\<lambda>(k, v). (k, h v)) ps)) = map (\<lambda>(k, v). (k, g v)) ps"
    by (rule Cons.IH) (use Cons.prems in auto)
  ultimately show ?case
    using p by simp
qed

section \<open>Round trips\<close>

text \<open>Parsing a canonical document and printing it again gives the document back.\<close>

lemma json_of_of_json: "json_canon j \<Longrightarrow> json_of (of_json j) = Some j"
proof (induction j rule: of_json.induct)
  case (5 js)
  then show ?case
    by (simp add: map_idI)
next
  case (6 ps)
  then have "\<And>k j. (k, j) \<in> set ps \<Longrightarrow> json_of (of_json j) = Some (id j)"
    by fastforce
  then have "concat (map (\<lambda>(k, v). case json_of v of None \<Rightarrow> [] | Some j \<Rightarrow> [(k, j)])
                (map (\<lambda>(k, j). (k, of_json j)) ps)) = map (\<lambda>(k, j). (k, id j)) ps"
    by (rule defined_props_all)
  with "6.prems" show ?case
    by simp
qed simp_all

text \<open>What \<open>JSON.stringify\<close> prints from a well-formed value is canonical.\<close>

lemma json_of_canon: "jsval_wf v \<Longrightarrow> json_of v = Some j \<Longrightarrow> json_canon j"
proof (induction v arbitrary: j rule: json_of.induct)
  case (4 n)
  then show ?case by (auto split: jsnum.splits)
next
  case (6 vs)
  then show ?case by (fastforce split: option.splits)
next
  case (7 ps)
  let ?d = "concat (map (\<lambda>(k, v). case json_of v of None \<Rightarrow> [] | Some j \<Rightarrow> [(k, j)]) ps)"
  have "\<forall>p \<in> set ?d. json_canon (snd p)"
    using "7.IH" "7.prems"(1) by (fastforce split: option.splits)
  moreover have "distinct (map fst ?d)"
    using "7.prems"(1) by (simp add: distinct_defined_props)
  ultimately show ?case
    using "7.prems"(2) by (auto simp: distinct_prop_order)
qed auto

text \<open>
  A value read back from its own serialization serializes to the same document: storing
  and reloading never changes what \<open>stringify_eq\<close> sees.
\<close>

lemma stringify_eq_reparse: "jsval_wf v \<Longrightarrow> stringify_eq (reparse v) v"
  by (auto simp: stringify_eq_def reparse_def json_of_of_json json_of_canon
      split: option.splits)

end
