(* ===== verification/CartModel.thy ===== *)
theory CartModel
  imports JsonValue
begin

text \<open>
  The data of the cart and its persistence, \<open>src/src/services/woocommerce.ts\<close>,
  \<open>WooCommerceAPI.updateCart\<close> and \<open>WooCommerceAPI.getCartFromStorage\<close>.
  The types of \<open>src/types/product.ts\<close> (not part of the sources) are modelled from the
  spec: a product, a line item and a cart. A cart is polymorphic in what its
  \<open>items\<close> array holds: references into the heap for the carts the hook keeps, item
  values for what is persisted and for the abstract specification.

  The world is the part of the browser the store touches: a heap of line-item objects
  (the code mutates them in place, so the aliasing is modelled; an address is an index
  into the list of the objects allocated so far), \<open>localStorage\<close> as a
  map from keys to stored JSON documents, whether \<open>setItem\<close> throws (quota exceeded or
  storage disabled), and the clock read by \<open>Date.now()\<close>.
\<close>

section \<open>Data\<close>

record product =
  prod_id :: int
  prod_name :: string
  prod_slug :: string
  prod_price :: string

record cart_item =
  key :: string
  item_id :: int
  quantity :: jsnum
  name :: string
  price :: jsnum
  line_total :: jsnum
  variation :: jsval
  product_data :: product

record 'i cart =
  items :: "'i list"
  item_count :: jsnum
  subtotal :: jsnum
  shipping_total :: jsnum
  tax_total :: jsnum
  total :: jsnum

datatype js_error = QuotaExceededError | MalformedStoredCart

record world =
  heap :: "cart_item list"
  storage :: "string \<Rightarrow> json option"
  storage_full :: bool
  clock :: nat

type_synonym ref_cart = "ref cart"
type_synonym cart_value = "cart_item cart"

definition map_items :: "('a \<Rightarrow> 'b) \<Rightarrow> 'a cart \<Rightarrow> 'b cart" where
  "map_items f c =
     \<lparr>items = map f (items c), item_count = item_count c, subtotal = subtotal c,
      shipping_total = shipping_total c, tax_total = tax_total c, total = total c\<rparr>"

text \<open>Reading the objects a list of references points to.\<close>

definition deref :: "cart_item list \<Rightarrow> ref list \<Rightarrow> cart_item list" where
  "deref h rs = map (\<lambda>r. h ! r) rs"

definition cart_value :: "world \<Rightarrow> ref_cart \<Rightarrow> cart_value" where
  "cart_value w c = map_items (\<lambda>r. heap w ! r) c"

section \<open>updateCart\<close>

text \<open>
  The cart object literal of \<open>updateCart\<close>, then the assignment to \<open>total\<close>. The
  item array is the argument itself (no copy).
\<close>

definition cart_totals :: "'i list \<Rightarrow> cart_item list \<Rightarrow> 'i cart" where
  "cart_totals is vs =
     (let c = \<lparr>items = is,
               item_count = foldl (\<lambda>s it. s + quantity it) 0 vs,
               subtotal = foldl (\<lambda>s it. s + price it * quantity it) 0 vs,
               shipping_total = 0, tax_total = 0, total = 0\<rparr>
      in c\<lparr>total := subtotal c + shipping_total c + tax_total c\<rparr>)"

text \<open>
  The aggregate invariant of the spec (section 3): the count is the sum of the quantities,
  the subtotal the sum of price times quantity, shipping and tax are zero in local mode,
  and the total is the sum of the three.
\<close>

definition totals_ok :: "'i cart \<Rightarrow> cart_item list \<Rightarrow> bool" where
  "totals_ok c vs \<longleftrightarrow>
     item_count c = sum_list (map quantity vs)
     \<and> subtotal c = sum_list (map (\<lambda>it. price it * quantity it) vs)
     \<and> shipping_total c = 0 \<and> tax_total c = 0
     \<and> total c = subtotal c + shipping_total c + tax_total c"

definition cart_key :: string where
  "cart_key = ''afpets_cart''"

definition localStorage_setItem :: "string \<Rightarrow> json \<Rightarrow> world \<Rightarrow> js_error + world" where
  "localStorage_setItem k v w =
     (if storage_full w then Inl QuotaExceededError
      else Inr (w\<lparr>storage := (storage w)(k \<mapsto> v)\<rparr>))"

text \<open>What \<open>JSON.stringify\<close> sees of a product, an item and a cart.\<close>

definition product_jsval :: "product \<Rightarrow> jsval" where
  "product_jsval p =
     JObject [(''id'', JNumber (Fin (of_int (prod_id p)))), (''name'', JString (prod_name p)),
              (''slug'', JString (prod_slug p)), (''price'', JString (prod_price p))]"

definition item_jsval :: "cart_item \<Rightarrow> jsval" where
  "item_jsval it =
     JObject [(''key'', JString (key it)), (''id'', JNumber (Fin (of_int (item_id it)))),
              (''quantity'', JNumber (quantity it)), (''name'', JString (name it)),
              (''price'', JNumber (price it)), (''line_total'', JNumber (line_total it)),
              (''variation'', variation it), (''product_data'', product_jsval (product_data it))]"

definition cart_jsval :: "cart_value \<Rightarrow> jsval" where
  "cart_jsval c =
     JObject [(''items'', JArray (map item_jsval (items c))),
              (''item_count'', JNumber (item_count c)), (''subtotal'', JNumber (subtotal c)),
              (''shipping_total'', JNumber (shipping_total c)),
              (''tax_total'', JNumber (tax_total c)), (''total'', JNumber (total c))]"

definition stored_cart :: "cart_value \<Rightarrow> json" where
  "stored_cart c = (case json_of (cart_jsval c) of Some j \<Rightarrow> j | None \<Rightarrow> JsonNull)"

definition updateCart :: "ref list \<Rightarrow> world \<Rightarrow> js_error + (ref_cart \<times> world)" where
  "updateCart rs w =
     (let c = cart_totals rs (deref (heap w) rs)
      in case localStorage_setItem cart_key (stored_cart (cart_value w c)) w of
           Inl e \<Rightarrow> Inl e
         | Inr w' \<Rightarrow> Inr (c, w'))"

section \<open>getCartFromStorage\<close>

text \<open>
  Reading a stored document back. A number field holds a number or \<open>null\<close> (what
  \<open>JSON.stringify\<close> wrote for NaN and the infinities); every use the sources make of
  these fields (\<open>+\<close>, \<open>*\<close>, \<open>+=\<close>, \<open>>\<close>) converts \<open>null\<close> to \<open>0\<close>, so
  \<open>null\<close> reads as \<open>Fin 0\<close>. A property missing from an item reads as
  \<open>undefined\<close>. A document that is not of the shape \<open>updateCart\<close> writes is
  \<open>MalformedStoredCart\<close>: the code does not check the shape and fails at the first use
  of a missing field instead; \<open>updateCart\<close> is the only writer of the key.
\<close>

definition num_of_json :: "json \<Rightarrow> jsnum option" where
  "num_of_json j = (case j of JsonNum r \<Rightarrow> Some (Fin r) | JsonNull \<Rightarrow> Some (Fin 0) | _ \<Rightarrow> None)"

definition int_of_json :: "json \<Rightarrow> int option" where
  "int_of_json j =
     (case j of JsonNum r \<Rightarrow> if r = of_int \<lfloor>r\<rfloor> then Some \<lfloor>r\<rfloor> else None | _ \<Rightarrow> None)"

definition str_of_json :: "json \<Rightarrow> string option" where
  "str_of_json j = (case j of JsonStr s \<Rightarrow> Some s | _ \<Rightarrow> None)"

definition product_of_json :: "json \<Rightarrow> product option" where
  "product_of_json j =
     (case j of
        JsonObj ps \<Rightarrow> do {
          i \<leftarrow> map_of ps ''id'' \<bind> int_of_json;
          n \<leftarrow> map_of ps ''name'' \<bind> str_of_json;
          s \<leftarrow> map_of ps ''slug'' \<bind> str_of_json;
          p \<leftarrow> map_of ps ''price'' \<bind> str_of_json;
          Some \<lparr>prod_id = i, prod_name = n, prod_slug = s, prod_price = p\<rparr>
        }
      | _ \<Rightarrow> None)"

definition item_of_json :: "json \<Rightarrow> cart_item option" where
  "item_of_json j =
     (case j of
        JsonObj ps \<Rightarrow> do {
          k \<leftarrow> map_of ps ''key'' \<bind> str_of_json;
          i \<leftarrow> map_of ps ''id'' \<bind> int_of_json;
          q \<leftarrow> map_of ps ''quantity'' \<bind> num_of_json;
          n \<leftarrow> map_of ps ''name'' \<bind> str_of_json;
          p \<leftarrow> map_of ps ''price'' \<bind> num_of_json;
          l \<leftarrow> map_of ps ''line_total'' \<bind> num_of_json;
          d \<leftarrow> map_of ps ''product_data'' \<bind> product_of_json;
          Some \<lparr>key = k, item_id = i, quantity = q, name = n, price = p, line_total = l,
                variation = (case map_of ps ''variation'' of None \<Rightarrow> JUndef | Some v \<Rightarrow> of_json v),
                product_data = d\<rparr>
        }
      | _ \<Rightarrow> None)"

definition cart_of_json :: "json \<Rightarrow> cart_value option" where
  "cart_of_json j =
     (case j of
        JsonObj ps \<Rightarrow> do {
          is \<leftarrow> (case map_of ps ''items'' of
                   Some (JsonArr js) \<Rightarrow> those (map item_of_json js)
                 | _ \<Rightarrow> None);
          ic \<leftarrow> map_of ps ''item_count'' \<bind> num_of_json;
          st \<leftarrow> map_of ps ''subtotal'' \<bind> num_of_json;
          sh \<leftarrow> map_of ps ''shipping_total'' \<bind> num_of_json;
          tx \<leftarrow> map_of ps ''tax_total'' \<bind> num_of_json;
          t \<leftarrow> map_of ps ''total'' \<bind> num_of_json;
          Some \<lparr>items = is, item_count = ic, subtotal = st, shipping_total = sh,
                tax_total = tx, total = t\<rparr>
        }
      | _ \<Rightarrow> None)"

text \<open>\<open>JSON.parse\<close> creates a fresh object for every item: allocation in array order.\<close>

fun alloc_items :: "cart_item list \<Rightarrow> world \<Rightarrow> ref list \<times> world" where
  "alloc_items [] w = ([], w)"
| "alloc_items (x # xs) w =
     (let r = length (heap w);
          (rs, w') = alloc_items xs (w\<lparr>heap := heap w @ [x]\<rparr>)
      in (r # rs, w'))"

definition empty_cart :: "'i cart" where
  "empty_cart =
     \<lparr>items = [], item_count = 0, subtotal = 0, shipping_total = 0, tax_total = 0, total = 0\<rparr>"

definition getCartFromStorage :: "world \<Rightarrow> js_error + (ref_cart \<times> world)" where
  "getCartFromStorage w =
     (case storage w cart_key of
        None \<Rightarrow> Inr (empty_cart, w)
      | Some j \<Rightarrow>
          (case cart_of_json j of
             None \<Rightarrow> Inl MalformedStoredCart
           | Some cv \<Rightarrow>
               (let (rs, w') = alloc_items (items cv) w
                in Inr (\<lparr>items = rs, item_count = item_count cv, subtotal = subtotal cv,
                          shipping_total = shipping_total cv, tax_total = tax_total cv,
                          total = total cv\<rparr>, w'))))"

section \<open>What a reload gives back\<close>

text \<open>
  The value a field holds after a store and a reload: a finite number is kept, NaN and
  the infinities come back as \<open>null\<close>, read as \<open>0\<close>; a variation comes back as
  \<open>JSON.parse\<close> rebuilds it.
\<close>

definition num_back :: "jsnum \<Rightarrow> jsnum" where
  "num_back n = (case n of Fin r \<Rightarrow> Fin r | _ \<Rightarrow> Fin 0)"

definition item_back :: "cart_item \<Rightarrow> cart_item" where
  "item_back it =
     it\<lparr>quantity := num_back (quantity it), price := num_back (price it),
        line_total := num_back (line_total it), variation := reparse (variation it)\<rparr>"

definition cart_back :: "cart_value \<Rightarrow> cart_value" where
  "cart_back c =
     \<lparr>items = map item_back (items c), item_count = num_back (item_count c),
      subtotal = num_back (subtotal c), shipping_total = num_back (shipping_total c),
      tax_total = num_back (tax_total c), total = num_back (total c)\<rparr>"

text \<open>A cart whose numbers are all finite.\<close>

definition fin_num :: "jsnum \<Rightarrow> bool" where
  "fin_num n = (case n of Fin r \<Rightarrow> True | _ \<Rightarrow> False)"

definition finite_item :: "cart_item \<Rightarrow> bool" where
  "finite_item it \<longleftrightarrow> fin_num (quantity it) \<and> fin_num (price it) \<and> fin_num (line_total it)"

definition finite_cart :: "cart_value \<Rightarrow> bool" where
  "finite_cart c \<longleftrightarrow>
     (\<forall>it \<in> set (items c). finite_item it) \<and> fin_num (item_count c) \<and> fin_num (subtotal c)
     \<and> fin_num (shipping_total c) \<and> fin_num (tax_total c) \<and> fin_num (total c)"

section \<open>Lemmas\<close>

lemma not_array_index_Cons: "\<not> is_digit c \<Longrightarrow> \<not> is_array_index (c # r)"
  by (simp add: is_array_index_def)

lemma prop_order_plain:
  "\<forall>p \<in> set ps. \<not> is_array_index (fst p) \<Longrightarrow> prop_order ps = ps"
  by (simp add: prop_order_def filter_empty_conv filter_id_conv)

lemma num_of_json_back [simp]:
  "num_of_json (case n of Fin r \<Rightarrow> JsonNum r | _ \<Rightarrow> JsonNull) = Some (num_back n)"
  by (cases n) (simp_all add: num_of_json_def num_back_def)

lemma int_of_json_of_int [simp]: "int_of_json (JsonNum (of_int i)) = Some i"
  by (simp add: int_of_json_def)

lemmas json_key_simps = not_array_index_Cons is_digit_def

lemma json_of_product [simp]:
  "json_of (product_jsval p) =
     Some (JsonObj [(''id'', JsonNum (of_int (prod_id p))), (''name'', JsonStr (prod_name p)),
                    (''slug'', JsonStr (prod_slug p)), (''price'', JsonStr (prod_price p))])"
  by (simp add: product_jsval_def prop_order_plain json_key_simps)

lemma product_roundtrip [simp]:
  "product_of_json (JsonObj [(''id'', JsonNum (of_int (prod_id p))), (''name'', JsonStr (prod_name p)),
                    (''slug'', JsonStr (prod_slug p)), (''price'', JsonStr (prod_price p))]) = Some p"
  by (simp add: product_of_json_def str_of_json_def)

lemma item_roundtrip:
  "item_of_json (case json_of (item_jsval it) of None \<Rightarrow> JsonNull | Some j \<Rightarrow> j) = Some (item_back it)"
  by (cases it; cases "json_of (variation it)")
    (simp_all add: item_jsval_def prop_order_plain json_key_simps item_of_json_def
      str_of_json_def item_back_def reparse_def)

lemma those_items_roundtrip:
  "those (map (item_of_json \<circ> ((\<lambda>v. case json_of v of None \<Rightarrow> JsonNull | Some j \<Rightarrow> j) \<circ> item_jsval)) xs)
   = Some (map item_back xs)"
  by (induction xs) (simp_all add: item_roundtrip)

text \<open>Storing a cart and reading it back gives \<open>cart_back\<close> of it.\<close>

lemma stored_cart_roundtrip: "cart_of_json (stored_cart c) = Some (cart_back c)"
  by (simp add: stored_cart_def cart_jsval_def prop_order_plain json_key_simps
      cart_of_json_def those_items_roundtrip cart_back_def)

section \<open>updateCart computes the aggregates and persists them\<close>

lemma cart_totals_fields [simp, cart_simps]:
  "items (cart_totals is vs) = is"
  "item_count (cart_totals is vs) = sum_list (map quantity vs)"
  "subtotal (cart_totals is vs) = sum_list (map (\<lambda>it. price it * quantity it) vs)"
  "shipping_total (cart_totals is vs) = 0"
  "tax_total (cart_totals is vs) = 0"
  "total (cart_totals is vs) = sum_list (map (\<lambda>it. price it * quantity it) vs)"
  by (simp_all add: cart_totals_def Let_def js_simps flip: js_zero_Fin)

lemma cart_totals_ok: "totals_ok (cart_totals is vs) vs"
  by (simp add: totals_ok_def flip: js_zero_Fin)

lemma deref_heap [simp]: "deref h rs = map ((!) h) rs"
  by (simp add: deref_def)

lemma cart_value_items [simp]: "items (cart_value w c) = map ((!) (heap w)) (items c)"
  by (simp add: cart_value_def map_items_def)

lemma cart_value_totals [simp]:
  "cart_value w (cart_totals rs vs) = cart_totals (map ((!) (heap w)) rs) vs"
  by (simp add: cart_value_def map_items_def cart_totals_def Let_def)

text \<open>\<open>updateCart\<close> on every branch: it throws exactly when \<open>setItem\<close> does.\<close>

lemma updateCart_eq:
  "updateCart rs w =
     (if storage_full w then Inl QuotaExceededError
      else Inr (cart_totals rs (map ((!) (heap w)) rs),
                w\<lparr>storage := (storage w)(cart_key \<mapsto>
                   stored_cart (cart_totals (map ((!) (heap w)) rs) (map ((!) (heap w)) rs)))\<rparr>))"
  by (simp add: updateCart_def localStorage_setItem_def Let_def)

section \<open>Allocation and reload\<close>

lemma alloc_items_eq:
  "alloc_items xs w =
     ([length (heap w) ..< length (heap w) + length xs], w\<lparr>heap := heap w @ xs\<rparr>)"
proof (induction xs arbitrary: w)
  case Nil
  then show ?case by simp
next
  case (Cons x xs)
  then show ?case
    by (simp add: upt_rec)
qed

lemma deref_alloc [simp]:
  "length xs = n \<Longrightarrow> map ((!) (h @ xs)) [length h ..< length h + n] = xs"
  by (rule nth_equalityI) (simp_all add: nth_append)

text \<open>
  Reading back what \<open>updateCart\<close> stored: fresh objects holding \<open>cart_back\<close> of the
  stored cart.
\<close>

lemma getCartFromStorage_stored:
  assumes "storage w cart_key = Some (stored_cart cv)"
  shows "\<exists>c w'. getCartFromStorage w = Inr (c, w') \<and> cart_value w' c = cart_back cv
           \<and> heap w' = heap w @ map item_back (items cv) \<and> storage w' = storage w"
  using assms
  by (simp add: getCartFromStorage_def stored_cart_roundtrip alloc_items_eq cart_value_def
      map_items_def cart_back_def)

end
