(* ===== verification/CartSpec.thy ===== *)
theory CartSpec
  imports CartModel
begin

text \<open>
  The cart store as a pure function on item values: the contract of spec section 4.1
  with the code's own choices (the match test of \<open>addToCart\<close>, the key built from the
  product id and the clock, no validation of the quantity). The hook of
  \<open>src/src/hooks/useCart.ts\<close> mutates heap objects; \<open>UseCart\<close> proves that, run one
  operation per render, it computes exactly these functions. The invariants of spec
  section 3 and the testable properties of section 8 are proved here, on values.
\<close>

section \<open>The operations on item lists\<close>

text \<open>
  The test of \<open>cart.items.findIndex\<close> in \<open>addToCart\<close>: same product id and the same
  \<open>JSON.stringify\<close> of the variation.
\<close>

definition same_line :: "product \<Rightarrow> jsval \<Rightarrow> cart_item \<Rightarrow> bool" where
  "same_line p v it \<longleftrightarrow> item_id it = prod_id p \<and> stringify_eq (variation it) v"

text \<open>The object literal \<open>newItem\<close> of \<open>addToCart\<close>, with \<open>Date.now()\<close> = \<open>now\<close>.\<close>

definition new_item :: "product \<Rightarrow> jsnum \<Rightarrow> jsval \<Rightarrow> nat \<Rightarrow> cart_item" where
  "new_item p q v now =
     \<lparr>key = show_int (prod_id p) @ ''-'' @ show_nat now, item_id = prod_id p, quantity = q,
      name = prod_name p, price = parseFloat (prod_price p),
      line_total = parseFloat (prod_price p) * q, variation = v, product_data = p\<rparr>"

text \<open>The two assignments to the found item: \<open>quantity += q\<close>, then the line total.\<close>

definition add_line :: "cart_item \<Rightarrow> jsnum \<Rightarrow> cart_item" where
  "add_line it q =
     (let it' = it\<lparr>quantity := quantity it + q\<rparr> in it'\<lparr>line_total := quantity it' * price it'\<rparr>)"

text \<open>The spread \<open>{...item, quantity, line_total: item.price * quantity}\<close>.\<close>

definition set_qty :: "cart_item \<Rightarrow> jsnum \<Rightarrow> cart_item" where
  "set_qty it q = it\<lparr>quantity := q, line_total := price it * q\<rparr>"

definition spec_add :: "product \<Rightarrow> jsnum \<Rightarrow> jsval \<Rightarrow> nat \<Rightarrow> cart_item list \<Rightarrow> cart_item list" where
  "spec_add p q v now xs =
     (case find_idx (same_line p v) xs of
        Some i \<Rightarrow> xs[i := add_line (xs ! i) q]
      | None \<Rightarrow> xs @ [new_item p q v now])"

definition spec_remove :: "string \<Rightarrow> cart_item list \<Rightarrow> cart_item list" where
  "spec_remove k xs = filter (\<lambda>it. key it \<noteq> k) xs"

definition spec_update :: "string \<Rightarrow> jsnum \<Rightarrow> cart_item list \<Rightarrow> cart_item list" where
  "spec_update k q xs =
     (if js_le q 0 then spec_remove k xs
      else map (\<lambda>it. if key it = k then set_qty it q else it) xs)"

definition spec_cart :: "cart_item list \<Rightarrow> cart_value" where
  "spec_cart xs = cart_totals xs xs"

text \<open>The four operations of the hook, as one datatype the models share.\<close>

datatype cart_op =
    AddToCart product jsnum jsval
  | RemoveFromCart string
  | UpdateQuantity string jsnum
  | ClearCart

fun spec_step :: "nat \<Rightarrow> cart_op \<Rightarrow> cart_item list \<Rightarrow> cart_item list" where
  "spec_step now (AddToCart p q v) xs = spec_add p q v now xs"
| "spec_step now (RemoveFromCart k) xs = spec_remove k xs"
| "spec_step now (UpdateQuantity k q) xs = spec_update k q xs"
| "spec_step now ClearCart xs = []"

section \<open>Example data\<close>

text \<open>
  Two products of the spec's scenario (section 8), a product without a price (the
  catalogue sends an empty price text for such products), and an empty browser at time
  1000. Witnesses evaluate the model on them.
\<close>

definition productA :: product where
  "productA = \<lparr>prod_id = 1, prod_name = ''A'', prod_slug = ''a'', prod_price = ''10.00''\<rparr>"

definition productB :: product where
  "productB = \<lparr>prod_id = 2, prod_name = ''B'', prod_slug = ''b'', prod_price = ''5.50''\<rparr>"

definition productN :: product where
  "productN = \<lparr>prod_id = 3, prod_name = ''N'', prod_slug = ''n'', prod_price = ''''\<rparr>"

definition world0 :: world where
  "world0 = \<lparr>heap = [], storage = Map.empty, storage_full = False, clock = 1000\<rparr>"

lemmas example_defs = productA_def productB_def productN_def world0_def

section \<open>Invariants\<close>

text \<open>Every line total is the unit price times the quantity (spec section 3).\<close>

definition lines_ok :: "cart_item list \<Rightarrow> bool" where
  "lines_ok xs \<longleftrightarrow> (\<forall>it \<in> set xs. line_total it = price it * quantity it)"

text \<open>A cart value satisfies the whole invariant of spec section 3.\<close>

definition cart_ok :: "cart_value \<Rightarrow> bool" where
  "cart_ok c \<longleftrightarrow> totals_ok c (items c) \<and> lines_ok (items c)"

lemma example_prices [simp]:
  "parseFloat ''10.00'' = Fin 10" "parseFloat ''5.50'' = Fin (11 / 2)" "parseFloat '''' = NaN"
  by code_simp+

lemma lines_ok_Nil [simp]: "lines_ok []"
  by (simp add: lines_ok_def)

lemma lines_ok_append [simp]: "lines_ok (xs @ ys) \<longleftrightarrow> lines_ok xs \<and> lines_ok ys"
  by (auto simp: lines_ok_def)

lemma lines_ok_single [simp]: "lines_ok [it] \<longleftrightarrow> line_total it = price it * quantity it"
  by (simp add: lines_ok_def)

lemma lines_ok_filter: "lines_ok xs \<Longrightarrow> lines_ok (filter P xs)"
  by (simp add: lines_ok_def)

lemma lines_ok_update: "lines_ok xs \<Longrightarrow> lines_ok [x] \<Longrightarrow> lines_ok (xs[i := x])"
  by (auto simp: lines_ok_def dest: set_update_subset_insert [THEN subsetD])

lemma new_item_line [simp]:
  "line_total (new_item p q v now) = price (new_item p q v now) * quantity (new_item p q v now)"
  by (simp add: new_item_def)

lemma add_line_line [simp]: "line_total (add_line it q) = price (add_line it q) * quantity (add_line it q)"
  by (simp add: add_line_def Let_def mult.commute)

lemma set_qty_line [simp]: "line_total (set_qty it q) = price (set_qty it q) * quantity (set_qty it q)"
  by (simp add: set_qty_def)

lemma add_line_fields [simp, cart_simps]:
  "quantity (add_line it q) = quantity it + q"
  "key (add_line it q) = key it"
  "item_id (add_line it q) = item_id it"
  "variation (add_line it q) = variation it"
  "price (add_line it q) = price it"
  by (simp_all add: add_line_def Let_def)

lemma set_qty_fields [simp, cart_simps]:
  "quantity (set_qty it q) = q"
  "key (set_qty it q) = key it"
  "price (set_qty it q) = price it"
  by (simp_all add: set_qty_def)

lemma spec_cart_ok: "lines_ok xs \<Longrightarrow> cart_ok (spec_cart xs)"
  by (simp add: cart_ok_def spec_cart_def cart_totals_ok)

lemma spec_step_lines_ok:
  assumes "lines_ok xs"
  shows "lines_ok (spec_step now op xs)"
proof (cases op)
  case (AddToCart p q v)
  with assms show ?thesis
    by (auto simp: spec_add_def lines_ok_update split: option.splits)
next
  case (UpdateQuantity k q)
  with assms show ?thesis
    by (auto simp: spec_update_def spec_remove_def lines_ok_filter lines_ok_def set_qty_def)
qed (use assms in \<open>simp_all add: spec_remove_def lines_ok_filter\<close>)

lemma spec_cart_items: "cart_ok cv \<Longrightarrow> spec_cart (items cv) = cv"
  by (simp add: cart_ok_def totals_ok_def spec_cart_def cart_totals_def foldl_plus_sum_list Let_def)

lemma spec_remove_absent: "k \<notin> set (map key xs) \<Longrightarrow> spec_remove k xs = xs"
  by (induction xs) (auto simp: spec_remove_def)

lemma lines_ok_subset: "lines_ok xs \<Longrightarrow> set ys \<subseteq> set xs \<Longrightarrow> lines_ok ys"
  by (auto simp: lines_ok_def)

section \<open>Merging, keys and removal\<close>

lemma same_line_new_item [simp]: "same_line p v (new_item p q v now)"
  by (simp add: same_line_def new_item_def stringify_eq_def)

lemma same_line_add_line [simp]: "same_line p v (add_line it q) = same_line p v it"
  by (simp add: same_line_def)

lemma add_line_add_line: "add_line (add_line it q1) q2 = add_line it (q1 + q2)"
  by (simp add: add_line_def Let_def add.assoc)

lemma add_line_new_item: "add_line (new_item p q1 v now) q2 = new_item p (q1 + q2) v now"
  by (simp add: add_line_def new_item_def Let_def mult.commute)

lemma json_of_plain_keys:
  assumes "\<forall>k \<in> set (map fst ps). \<not> is_array_index k" and "\<forall>x \<in> set (map snd ps). json_of x \<noteq> None"
  shows "\<exists>js. json_of (JObject ps) = Some (JsonObj js) \<and> map fst js = map fst ps"
proof -
  let ?d = "concat (map (\<lambda>(k, v). case json_of v of None \<Rightarrow> [] | Some j \<Rightarrow> [(k, j)]) ps)"
  have keys: "map fst ?d = map fst ps"
    using assms(2) by (simp add: keys_defined_props filter_id_conv)
  have "\<forall>x \<in> set ?d. \<not> is_array_index (fst x)"
  proof
    fix x
    assume "x \<in> set ?d"
    then have "fst x \<in> set (map fst ?d)"
      by simp
    with keys assms(1) show "\<not> is_array_index (fst x)"
      by fastforce
  qed
  then have "prop_order ?d = ?d"
    by (rule prop_order_plain)
  with keys show ?thesis
    by simp
qed

text \<open>
  C7. Adding a product twice with the same variation is adding the sum of the two
  quantities once: the second call finds the line the first created or updated and
  increments it, so the two calls never leave two lines for one product and variation,
  whatever the cart held before.
\<close>

theorem add_twice_merges:
  "spec_add p q2 v t2 (spec_add p q1 v t1 xs) = spec_add p (q1 + q2) v t1 xs"
proof (cases "find_idx (same_line p v) xs")
  case None
  then have "find_idx (same_line p v) (xs @ [new_item p q1 v t1]) = Some (length xs)"
    by (simp add: find_idx_append)
  with None show ?thesis
    by (simp add: spec_add_def add_line_new_item)
next
  case (Some i)
  moreover from Some have "i < length xs" "same_line p v (xs ! i)"
    using find_idx_Some by blast+
  ultimately have "find_idx (same_line p v) (xs[i := add_line (xs ! i) q1]) = Some i"
    by (simp add: find_idx_update)
  with Some \<open>i < length xs\<close> show ?thesis
    by (simp add: spec_add_def add_line_add_line)
qed

text \<open>
  C8. The key \<open>${product.id}-${Date.now()}\<close> of a new line determines the product
  id and the millisecond: two new lines get the same key exactly when they are for the same
  product id and are created at the same \<open>Date.now()\<close>.
\<close>

theorem new_item_key_inj:
  "key (new_item p q v t) = key (new_item p' q' v' t') \<longleftrightarrow> prod_id p = prod_id p' \<and> t = t'"
proof
  assume "key (new_item p q v t) = key (new_item p' q' v' t')"
  then have "show_int (prod_id p) @ CHR ''-'' # show_nat t = show_int (prod_id p') @ CHR ''-'' # show_nat t'"
    by (simp add: new_item_def)
  then have "show_int (prod_id p) = show_int (prod_id p') \<and> show_nat t = show_nat t'"
    by (rule append_last_sep_eq [OF show_nat_not_minus show_nat_not_minus])
  then show "prod_id p = prod_id p' \<and> t = t'"
    by (auto dest: show_int_inj show_nat_inj)
qed (simp add: new_item_def)

text \<open>
  C9. Finding: \<open>addToCart\<close> matches a line by comparing \<open>JSON.stringify\<close> of the
  two variations, so two variations with the same attributes written in a different key order
  are different lines. When every key of the two variation objects is a plain (non-index)
  name and every value serialises, the variation given matches a line only if its keys come
  in the same order as in that line's variation.
\<close>

theorem same_line_key_order:
  assumes "same_line p (JObject qs) it" and "variation it = JObject ps"
    and "\<forall>k \<in> set (map fst ps @ map fst qs). \<not> is_array_index k"
    and "\<forall>x \<in> set (map snd ps @ map snd qs). json_of x \<noteq> None"
  shows "map fst ps = map fst qs"
proof -
  obtain js1 where j1: "json_of (JObject ps) = Some (JsonObj js1)" "map fst js1 = map fst ps"
    using json_of_plain_keys [of ps] assms(3,4) by auto
  obtain js2 where j2: "json_of (JObject qs) = Some (JsonObj js2)" "map fst js2 = map fst qs"
    using json_of_plain_keys [of qs] assms(3,4) by auto
  from assms(1,2) have "json_of (JObject ps) = json_of (JObject qs)"
    by (simp add: same_line_def stringify_eq_def)
  with j1 j2 show ?thesis
    by simp
qed

theorem same_line_key_order_witness:
  "\<not> same_line productA (JObject [(''talla'', JString ''M''), (''color'', JString ''rojo'')])
       (new_item productA (Fin 1) (JObject [(''color'', JString ''rojo''), (''talla'', JString ''M'')]) 1000)"
proof
  assume "same_line productA (JObject [(''talla'', JString ''M''), (''color'', JString ''rojo'')])
       (new_item productA (Fin 1) (JObject [(''color'', JString ''rojo''), (''talla'', JString ''M'')]) 1000)"
  from same_line_key_order [OF this] show False
    by (simp add: new_item_def is_array_index_def is_digit_def)
qed

end
