(* ===== verification/UseCart.thy ===== *)
theory UseCart
  imports CartSpec
begin

text \<open>
  The hook \<open>useCart\<close> of \<open>src/src/hooks/useCart.ts\<close>. Its state \<open>cart\<close> is a cart
  whose \<open>items\<close> array holds references to line-item objects on the heap. Every
  operation reads the \<open>cart\<close> of the render that created it (passed here as the first
  argument), builds the new item array, calls \<open>WooCommerceAPI.updateCart\<close> (which writes
  \<open>localStorage\<close> before its promise settles) and finally calls \<open>setCart\<close> with the
  result. An operation returns \<open>Inr\<close> of the cart given to \<open>setCart\<close>, or \<open>Inl\<close> of
  the error its promise rejects with; the world it returns keeps every heap write made
  before the failure.
\<close>

section \<open>The operations\<close>

text \<open>\<open>await WooCommerceAPI.updateCart(newItems)\<close>, the step every operation ends with.\<close>

definition persist :: "ref list \<Rightarrow> world \<Rightarrow> (js_error + ref_cart) \<times> world" where
  "persist rs w = (case updateCart rs w of Inl e \<Rightarrow> (Inl e, w) | Inr (c, w') \<Rightarrow> (Inr c, w'))"

text \<open>
  \<open>addToCart\<close>: the array is copied (\<open>[...cart.items]\<close>) but the objects are not, so
  the increment of the found item writes the object that the current state also holds.
\<close>

definition addToCart :: "ref_cart \<Rightarrow> product \<Rightarrow> jsnum \<Rightarrow> jsval \<Rightarrow> world \<Rightarrow> (js_error + ref_cart) \<times> world" where
  "addToCart cart p q v w =
     (let existingItemIndex = findIndex (\<lambda>r. same_line p v (heap w ! r)) (items cart);
          newItems = items cart
      in if 0 \<le> existingItemIndex then
           (let r = newItems ! nat existingItemIndex;
                it = heap w ! r;
                w1 = w\<lparr>heap := (heap w)[r := it\<lparr>quantity := quantity it + q\<rparr>]\<rparr>;
                it1 = heap w1 ! r;
                w2 = w1\<lparr>heap := (heap w1)[r := it1\<lparr>line_total := quantity it1 * price it1\<rparr>]\<rparr>
            in persist newItems w2)
         else
           (let r = length (heap w);
                w1 = w\<lparr>heap := heap w @ [new_item p q v (clock w)]\<rparr>
            in persist (newItems @ [r]) w1))"

definition removeFromCart :: "ref_cart \<Rightarrow> string \<Rightarrow> world \<Rightarrow> (js_error + ref_cart) \<times> world" where
  "removeFromCart cart k w = persist (filter (\<lambda>r. key (heap w ! r) \<noteq> k) (items cart)) w"

text \<open>
  The \<open>map\<close> of \<open>updateQuantity\<close>: a matching item is replaced by a fresh object (the
  spread), allocated in array order; the others are kept by reference.
\<close>

fun update_items :: "string \<Rightarrow> jsnum \<Rightarrow> ref list \<Rightarrow> world \<Rightarrow> ref list \<times> world" where
  "update_items k q [] w = ([], w)"
| "update_items k q (r # rs) w =
     (if key (heap w ! r) = k then
        (let r' = length (heap w);
             w1 = w\<lparr>heap := heap w @ [set_qty (heap w ! r) q]\<rparr>;
             (rs', w2) = update_items k q rs w1
         in (r' # rs', w2))
      else
        (let (rs', w2) = update_items k q rs w in (r # rs', w2)))"

definition updateQuantity :: "ref_cart \<Rightarrow> string \<Rightarrow> jsnum \<Rightarrow> world \<Rightarrow> (js_error + ref_cart) \<times> world" where
  "updateQuantity cart k q w =
     (if js_le q 0 then removeFromCart cart k w
      else (let (newItems, w1) = update_items k q (items cart) w in persist newItems w1))"

definition clearCart :: "ref_cart \<Rightarrow> world \<Rightarrow> (js_error + ref_cart) \<times> world" where
  "clearCart cart w = persist [] w"

fun run_op :: "cart_op \<Rightarrow> ref_cart \<Rightarrow> world \<Rightarrow> (js_error + ref_cart) \<times> world" where
  "run_op (AddToCart p q v) c w = addToCart c p q v w"
| "run_op (RemoveFromCart k) c w = removeFromCart c k w"
| "run_op (UpdateQuantity k q) c w = updateQuantity c k q w"
| "run_op ClearCart c w = clearCart c w"

text \<open>
  One operation of a hook instance whose state is \<open>c\<close>, started from the render that
  shows \<open>c\<close>: \<open>setCart\<close> runs only when the promise of \<open>updateCart\<close> resolves.
\<close>

definition hook_step :: "cart_op \<Rightarrow> ref_cart \<times> world \<Rightarrow> ref_cart \<times> world" where
  "hook_step op s =
     (case run_op op (fst s) (snd s) of (Inl e, w') \<Rightarrow> (fst s, w') | (Inr c', w') \<Rightarrow> (c', w'))"

text \<open>
  Several operations started from the same render (a handler calling \<open>addToCart\<close>
  twice, or a second event before the re-render): all read the same \<open>cart\<close>, and the
  \<open>setCart\<close> calls run in call order, the last one winning.
\<close>

fun run_batch :: "cart_op list \<Rightarrow> ref_cart \<Rightarrow> ref_cart \<times> world \<Rightarrow> ref_cart \<times> world" where
  "run_batch [] c0 s = s"
| "run_batch (op # ops) c0 s =
     (case run_op op c0 (snd s) of
        (Inl e, w') \<Rightarrow> run_batch ops c0 (fst s, w')
      | (Inr c', w') \<Rightarrow> run_batch ops c0 (c', w'))"

text \<open>The cart value a hook instance renders.\<close>

abbreviation hook_value :: "ref_cart \<times> world \<Rightarrow> cart_value" where
  "hook_value s \<equiv> cart_value (snd s) (fst s)"

section \<open>The heap invariant\<close>

text \<open>The references of a cart are distinct and allocated.\<close>

definition refs_ok :: "world \<Rightarrow> ref list \<Rightarrow> bool" where
  "refs_ok w rs \<longleftrightarrow> distinct rs \<and> (\<forall>r \<in> set rs. r < length (heap w))"

text \<open>The invariant of a hook instance: its references are sound, its value satisfies the
  invariant of spec section 3.\<close>

definition hook_inv :: "ref_cart \<times> world \<Rightarrow> bool" where
  "hook_inv s \<longleftrightarrow> refs_ok (snd s) (items (fst s)) \<and> cart_ok (cart_value (snd s) (fst s))"

text \<open>
  \<open>w1\<close> differs from \<open>w\<close> at most in its heap, and the references \<open>rs\<close> are
  well formed in it and point to the objects \<open>xs\<close>: the shape every operation leaves
  before its final \<open>updateCart\<close>.
\<close>

definition prepared :: "world \<Rightarrow> world \<Rightarrow> ref list \<Rightarrow> cart_item list \<Rightarrow> bool" where
  "prepared w w1 rs xs \<longleftrightarrow>
     w1 = w\<lparr>heap := heap w1\<rparr> \<and> refs_ok w1 rs \<and> map ((!) (heap w1)) rs = xs"

text \<open>
  The heap an operation leaves: it only grows, and objects outside \<open>R\<close> keep their
  value. \<open>frame_result\<close> adds that a cart it resolves with holds references of \<open>R\<close> or
  fresh ones.
\<close>

definition heap_frame :: "world \<Rightarrow> world \<Rightarrow> ref set \<Rightarrow> bool" where
  "heap_frame w w' R \<longleftrightarrow>
     length (heap w) \<le> length (heap w') \<and> (\<forall>i < length (heap w). i \<notin> R \<longrightarrow> heap w' ! i = heap w ! i)"

definition frame_result :: "world \<Rightarrow> world \<Rightarrow> ref set \<Rightarrow> js_error + ref_cart \<Rightarrow> bool" where
  "frame_result w w' R res \<longleftrightarrow>
     heap_frame w w' R
     \<and> (case res of Inl e \<Rightarrow> True | Inr c' \<Rightarrow> set (items c') \<subseteq> R \<union> {length (heap w) ..< length (heap w')})"

lemma persist_ok:
  assumes "prepared w w1 rs xs" and "\<not> storage_full w"
  shows "\<exists>c' w'. persist rs w1 = (Inr c', w') \<and> refs_ok w' (items c')
           \<and> cart_value w' c' = spec_cart xs
           \<and> storage w' cart_key = Some (stored_cart (spec_cart xs))
           \<and> clock w' = clock w \<and> storage_full w' = storage_full w"
proof -
  from assms(1) have w1: "w1 = w\<lparr>heap := heap w1\<rparr>"
    by (simp add: prepared_def)
  then have "storage_full w1 = storage_full w" "clock w1 = clock w" "storage w1 = storage w"
    by (metis world.select_convs world.surjective world.update_convs)+
  with assms show ?thesis
    by (auto simp: persist_def updateCart_eq prepared_def refs_ok_def spec_cart_def)
qed

lemma persist_full:
  "storage_full w1 \<Longrightarrow> persist rs w1 = (Inl QuotaExceededError, w1)"
  by (simp add: persist_def updateCart_eq)

section \<open>Each operation prepares the abstract result\<close>

lemma addToCart_eq:
  assumes ok: "refs_ok w (items c)"
  shows "addToCart c p q v w =
    (case find_idx (\<lambda>r. same_line p v (heap w ! r)) (items c) of
       None \<Rightarrow> persist (items c @ [length (heap w)]) (w\<lparr>heap := heap w @ [new_item p q v (clock w)]\<rparr>)
     | Some i \<Rightarrow> persist (items c)
                   (w\<lparr>heap := (heap w)[items c ! i := add_line (heap w ! (items c ! i)) q]\<rparr>))"
proof (cases "find_idx (\<lambda>r. same_line p v (heap w ! r)) (items c)")
  case None
  then show ?thesis by (simp add: addToCart_def findIndex_def)
next
  case (Some i)
  from find_idx_Some [OF Some] ok have "items c ! i < length (heap w)"
    by (simp add: refs_ok_def)
  with Some show ?thesis
    by (simp add: addToCart_def findIndex_def add_line_def Let_def)
qed

lemma addToCart_prepared:
  assumes ok: "refs_ok w (items c)"
  shows "\<exists>w1 rs. addToCart c p q v w = persist rs w1
           \<and> prepared w w1 rs (spec_add p q v (clock w) (map ((!) (heap w)) (items c)))"
proof (cases "find_idx (\<lambda>r. same_line p v (heap w ! r)) (items c)")
  case None
  let ?w1 = "w\<lparr>heap := heap w @ [new_item p q v (clock w)]\<rparr>"
  let ?rs = "items c @ [length (heap w)]"
  have "addToCart c p q v w = persist ?rs ?w1"
    using None addToCart_eq [OF ok] by simp
  moreover have "prepared w ?w1 ?rs (spec_add p q v (clock w) (map ((!) (heap w)) (items c)))"
    using None ok by (auto simp: prepared_def refs_ok_def spec_add_def find_idx_map nth_append)
  ultimately show ?thesis by blast
next
  case (Some i)
  from find_idx_Some [OF Some] have i: "i < length (items c)" by simp
  let ?r = "items c ! i"
  have r: "?r < length (heap w)"
    using ok i by (simp add: refs_ok_def)
  let ?w1 = "w\<lparr>heap := (heap w)[?r := add_line (heap w ! ?r) q]\<rparr>"
  have "addToCart c p q v w = persist (items c) ?w1"
    using Some addToCart_eq [OF ok] by simp
  moreover have "map ((!) (heap ?w1)) (items c)
      = (map ((!) (heap w)) (items c))[i := add_line (heap w ! ?r) q]"
    using ok i by (simp add: refs_ok_def map_nth_update_distinct)
  then have "prepared w ?w1 (items c) (spec_add p q v (clock w) (map ((!) (heap w)) (items c)))"
    using Some ok i by (simp add: prepared_def refs_ok_def spec_add_def find_idx_map)
  ultimately show ?thesis by blast
qed

lemma removeFromCart_prepared:
  assumes ok: "refs_ok w (items c)"
  shows "\<exists>w1 rs. removeFromCart c k w = persist rs w1
           \<and> prepared w w1 rs (spec_remove k (map ((!) (heap w)) (items c)))"
proof -
  have "prepared w w (filter (\<lambda>r. key (heap w ! r) \<noteq> k) (items c))
          (spec_remove k (map ((!) (heap w)) (items c)))"
    using ok by (auto simp: prepared_def refs_ok_def spec_remove_def filter_map comp_def)
  then show ?thesis
    by (auto simp: removeFromCart_def)
qed

text \<open>
  The copies made by \<open>updateQuantity\<close> are fresh, so the new array is again free of
  repetitions; the objects the old array pointed to are not touched.
\<close>

lemma update_items_prepared:
  assumes "refs_ok w rs" and "update_items k q rs w = (rs', w')"
  shows "prepared w w' rs' (map (\<lambda>it. if key it = k then set_qty it q else it) (map ((!) (heap w)) rs))
         \<and> (\<exists>ys. heap w' = heap w @ ys)
         \<and> (\<forall>r \<in> set rs'. r \<in> set rs \<or> length (heap w) \<le> r)"
  using assms
proof (induction k q rs w arbitrary: rs' w' rule: update_items.induct)
  case (1 k q w)
  then show ?case
    by (auto simp: prepared_def refs_ok_def)
next
  case (2 k q r rs w)
  show ?case
  proof (cases "key (heap w ! r) = k")
    case True
    let ?w1 = "w\<lparr>heap := heap w @ [set_qty (heap w ! r) q]\<rparr>"
    obtain rs1 w2 where rec: "update_items k q rs ?w1 = (rs1, w2)" by fastforce
    with True "2.prems" have out: "rs' = length (heap w) # rs1" "w' = w2"
      by (simp_all add: Let_def)
    have "refs_ok ?w1 rs"
      using "2.prems"(1) by (auto simp: refs_ok_def)
    from "2.IH"(1) [OF True _ _ this rec] obtain ys where
      ih: "prepared ?w1 w2 rs1 (map (\<lambda>it. if key it = k then set_qty it q else it)
              (map ((!) (heap ?w1)) rs))"
        "heap w2 = heap ?w1 @ ys"
        "\<forall>r' \<in> set rs1. r' \<in> set rs \<or> length (heap ?w1) \<le> r'"
      by auto
    have old: "map ((!) (heap ?w1)) rs = map ((!) (heap w)) rs"
      using "2.prems"(1) by (simp add: refs_ok_def)
    have fresh: "length (heap w) \<notin> set rs1"
      using ih(3) "2.prems"(1) by (fastforce simp: refs_ok_def)
    show ?thesis
      using ih old fresh True "2.prems"(1) unfolding out
      by (auto simp: prepared_def refs_ok_def nth_append)
  next
    case False
    obtain rs1 w2 where rec: "update_items k q rs w = (rs1, w2)" by fastforce
    with False "2.prems" have out: "rs' = r # rs1" "w' = w2"
      by (simp_all add: Let_def)
    have "refs_ok w rs"
      using "2.prems"(1) by (auto simp: refs_ok_def)
    from "2.IH"(2) [OF False this rec] obtain ys where
      ih: "prepared w w2 rs1 (map (\<lambda>it. if key it = k then set_qty it q else it)
              (map ((!) (heap w)) rs))"
        "heap w2 = heap w @ ys"
        "\<forall>r' \<in> set rs1. r' \<in> set rs \<or> length (heap w) \<le> r'"
      by auto
    have "r \<notin> set rs1" "r < length (heap w)"
      using ih(3) "2.prems"(1) by (auto simp: refs_ok_def)
    then show ?thesis
      using ih False unfolding out
      by (auto simp: prepared_def refs_ok_def nth_append)
  qed
qed

lemma run_op_prepared:
  assumes ok: "refs_ok w (items c)"
  shows "\<exists>w1 rs. run_op op c w = persist rs w1
           \<and> prepared w w1 rs (spec_step (clock w) op (map ((!) (heap w)) (items c)))"
proof (cases op)
  case (AddToCart p q v)
  then show ?thesis using addToCart_prepared [OF ok] by simp
next
  case (RemoveFromCart k)
  then show ?thesis using removeFromCart_prepared [OF ok] by simp
next
  case (UpdateQuantity k q)
  show ?thesis
  proof (cases "js_le q 0")
    case True
    with UpdateQuantity show ?thesis
      using removeFromCart_prepared [OF ok, of k]
      by (simp add: updateQuantity_def spec_update_def)
  next
    case False
    obtain rs' w' where upd: "update_items k q (items c) w = (rs', w')" by fastforce
    with update_items_prepared [OF ok upd] False UpdateQuantity show ?thesis
      by (auto simp: updateQuantity_def spec_update_def)
  qed
next
  case ClearCart
  have "prepared w w [] []"
    by (simp add: prepared_def refs_ok_def)
  with ClearCart show ?thesis
    by (auto simp: clearCart_def)
qed

lemma prepared_full: "prepared w w1 rs xs \<Longrightarrow> storage_full w1 = storage_full w"
  by (metis prepared_def world.select_convs(3) world.surjective world.update_convs(1))

lemma cart_value_items_ok:
  "cart_ok (cart_value w c) \<Longrightarrow> lines_ok (map ((!) (heap w)) (items c))"
  by (simp add: cart_ok_def)

lemma hook_step_value:
  assumes "refs_ok (snd s) (items (fst s))" and "\<not> storage_full (snd s)"
  shows "refs_ok (snd (hook_step op s)) (items (fst (hook_step op s)))
    \<and> \<not> storage_full (snd (hook_step op s)) \<and> clock (snd (hook_step op s)) = clock (snd s)
    \<and> hook_value (hook_step op s) = spec_cart (spec_step (clock (snd s)) op (items (hook_value s)))
    \<and> storage (snd (hook_step op s)) cart_key = Some (stored_cart (hook_value (hook_step op s)))"
proof -
  obtain c w where s: "s = (c, w)" by fastforce
  obtain w1 rs where run: "run_op op c w = persist rs w1"
    and prep: "prepared w w1 rs (spec_step (clock w) op (map ((!) (heap w)) (items c)))"
    using run_op_prepared assms(1) s by fastforce
  from persist_ok [OF prep] assms(2) run s show ?thesis
    by (auto simp: hook_step_def)
qed

lemma getCartFromStorage_refs_ok:
  "getCartFromStorage w = Inr (c, w') \<Longrightarrow> refs_ok w' (items c)"
  by (auto simp: getCartFromStorage_def alloc_items_eq refs_ok_def empty_cart_def
      split: option.splits)

section \<open>What an operation may write\<close>

lemma heap_frame_append: "heap w' = heap w @ ys \<Longrightarrow> heap_frame w w' R"
  by (simp add: heap_frame_def nth_append)

lemma heap_frame_update:
  "r \<in> R \<Longrightarrow> heap w' = (heap w)[r := a] \<Longrightarrow> heap_frame w w' R"
  unfolding heap_frame_def by (metis length_list_update nth_list_update_neq order_refl)

lemma heap_frame_trans:
  "heap_frame w w1 R \<Longrightarrow> heap_frame w1 w2 R \<Longrightarrow> heap_frame w w2 R"
  by (auto simp: heap_frame_def)

lemma persist_heap:
  "persist rs w = (res, w') \<Longrightarrow> heap w' = heap w \<and> (\<forall>c'. res = Inr c' \<longrightarrow> items c' = rs)"
  by (auto simp: persist_def updateCart_eq split: if_splits)

lemma update_items_frame:
  "update_items k q rs w = (rs', w') \<Longrightarrow>
     (\<exists>ys. heap w' = heap w @ ys) \<and> set rs' \<subseteq> set rs \<union> {length (heap w) ..< length (heap w')}"
proof (induction rs arbitrary: rs' w w')
  case Nil
  then show ?case by simp
next
  case (Cons r rs)
  show ?case
  proof (cases "key (heap w ! r) = k")
    case True
    let ?w1 = "w\<lparr>heap := heap w @ [set_qty (heap w ! r) q]\<rparr>"
    obtain rs1 w2 where u: "update_items k q rs ?w1 = (rs1, w2)" by fastforce
    with Cons.prems True have out: "rs' = length (heap w) # rs1" "w' = w2"
      by (simp_all add: Let_def)
    from Cons.IH [OF u] out show ?thesis
      by auto
  next
    case False
    obtain rs1 w2 where u: "update_items k q rs w = (rs1, w2)" by fastforce
    with Cons.prems False have out: "rs' = r # rs1" "w' = w2"
      by simp_all
    from Cons.IH [OF u] out show ?thesis
      by auto
  qed
qed

lemma persist_frame:
  assumes "persist rs wm = (res, w')" and "heap_frame w wm R"
    and "set rs \<subseteq> R \<union> {length (heap w) ..< length (heap wm)}"
  shows "frame_result w w' R res"
  using persist_heap [OF assms(1)] assms(2,3) by (auto simp: frame_result_def heap_frame_def split: sum.splits)

lemma run_op_frame:
  assumes ok: "refs_ok w (items c)" and run: "run_op op c w = (res, w')"
  shows "frame_result w w' (set (items c)) res"
proof (cases op)
  case (AddToCart p q v)
  show ?thesis
  proof (cases "find_idx (\<lambda>r. same_line p v (heap w ! r)) (items c)")
    case None
    with run AddToCart addToCart_eq [OF ok] show ?thesis
      by (intro persist_frame [where wm = "w\<lparr>heap := heap w @ [new_item p q v (clock w)]\<rparr>"])
        (auto intro: heap_frame_append)
  next
    case (Some i)
    from find_idx_Some [OF Some] have "items c ! i \<in> set (items c)" by simp
    with Some run AddToCart addToCart_eq [OF ok] show ?thesis
      by (intro persist_frame [where wm = "w\<lparr>heap := (heap w)[items c ! i := add_line (heap w ! (items c ! i)) q]\<rparr>"])
        (auto intro: heap_frame_update)
  qed
next
  case (RemoveFromCart k)
  with run show ?thesis
    by (intro persist_frame [where wm = w]) (auto simp: removeFromCart_def heap_frame_def)
next
  case (UpdateQuantity k q)
  show ?thesis
  proof (cases "js_le q 0")
    case True
    with run UpdateQuantity show ?thesis
      by (intro persist_frame [where wm = w])
        (auto simp: updateQuantity_def removeFromCart_def heap_frame_def)
  next
    case False
    obtain rs1 w1 where u: "update_items k q (items c) w = (rs1, w1)" by fastforce
    with run False UpdateQuantity have "persist rs1 w1 = (res, w')"
      by (simp add: updateQuantity_def)
    then show ?thesis
      using update_items_frame [OF u] by (auto intro: persist_frame heap_frame_append)
  qed
next
  case ClearCart
  with run show ?thesis
    by (intro persist_frame [where wm = w]) (auto simp: clearCart_def heap_frame_def)
qed

lemma hook_step_frame:
  assumes ok: "refs_ok w (items c)" and st: "hook_step op (c, w) = (c', w')"
  shows "heap_frame w w' (set (items c)) \<and> refs_ok w' (items c')
    \<and> set (items c') \<subseteq> set (items c) \<union> {length (heap w) ..< length (heap w')}"
proof -
  obtain res w1 where run: "run_op op c w = (res, w1)" by fastforce
  have fr: "frame_result w w1 (set (items c)) res"
    by (rule run_op_frame [OF ok run])
  show ?thesis
  proof (cases res)
    case (Inl e)
    with run st have "c' = c" "w' = w1"
      by (simp_all add: hook_step_def)
    with fr Inl ok show ?thesis
      by (auto simp: frame_result_def heap_frame_def refs_ok_def)
  next
    case (Inr c1)
    have nf: "\<not> storage_full w"
    proof
      assume full: "storage_full w"
      obtain wm rs where "run_op op c w = persist rs wm" "prepared w wm rs (spec_step (clock w) op (map ((!) (heap w)) (items c)))"
        using run_op_prepared [OF ok] by blast
      with full run Inr show False
        by (simp add: persist_full prepared_full)
    qed
    from hook_step_value [of "(c, w)" op] ok nf st
    have "refs_ok w' (items c')" by simp
    moreover from run st Inr have "c' = c1" "w' = w1"
      by (simp_all add: hook_step_def)
    ultimately show ?thesis
      using fr Inr by (simp add: frame_result_def)
  qed
qed

lemma getCartFromStorage_frame:
  assumes "getCartFromStorage w = Inr (c, w')"
  shows "(\<exists>ys. heap w' = heap w @ ys) \<and> set (items c) \<subseteq> {length (heap w) ..< length (heap w')}
    \<and> w' = w\<lparr>heap := heap w'\<rparr>"
  using assms
  by (auto simp: getCartFromStorage_def alloc_items_eq empty_cart_def split: option.splits)

lemma refs_ok_extend:
  "refs_ok w rs \<Longrightarrow> length (heap w) \<le> length (heap w') \<Longrightarrow> refs_ok w' rs"
  by (auto simp: refs_ok_def)

lemma fin_num_sum_list: "\<forall>x \<in> set xs. fin_num x \<Longrightarrow> fin_num (sum_list xs)"
  by (induction xs) (auto simp: fin_num_def split: jsnum.splits)

lemma fin_num_add_cancel: "fin_num s \<Longrightarrow> s + Fin a = s + Fin b \<Longrightarrow> a = b"
  by (auto simp: fin_num_def split: jsnum.splits)

lemma hook_step_add_full:
  assumes ok: "refs_ok w (items c)" and full: "storage_full w"
    and found: "find_idx (same_line p v) (map ((!) (heap w)) (items c)) = Some i"
  shows "hook_step (AddToCart p q v) (c, w)
    = (c, w\<lparr>heap := (heap w)[items c ! i := add_line (heap w ! (items c ! i)) q]\<rparr>)"
proof -
  have "find_idx (\<lambda>r. same_line p v (heap w ! r)) (items c) = Some i"
    using found by (simp add: find_idx_map comp_def)
  with addToCart_eq [OF ok] full show ?thesis
    by (simp add: hook_step_def persist_full)
qed

lemma run_op_persisted:
  assumes "refs_ok w (items c)" and "\<not> storage_full w"
  shows "\<exists>c' w'. run_op op c w = (Inr c', w')
           \<and> cart_value w' c' = spec_cart (spec_step (clock w) op (map ((!) (heap w)) (items c)))"
proof -
  obtain w1 rs where run: "run_op op c w = persist rs w1"
    and prep: "prepared w w1 rs (spec_step (clock w) op (map ((!) (heap w)) (items c)))"
    using run_op_prepared [OF assms(1)] by blast
  from persist_ok [OF prep assms(2)] run show ?thesis
    by auto
qed

lemma addToCart_world:
  assumes ok: "refs_ok w (items c)" and nf: "\<not> storage_full w"
    and run: "addToCart c p q v w = (res, w1)"
  shows "refs_ok w1 (items c) \<and> \<not> storage_full w1 \<and> clock w1 = clock w
    \<and> map ((!) (heap w1)) (items c)
        = (case find_idx (same_line p v) (map ((!) (heap w)) (items c)) of
             None \<Rightarrow> map ((!) (heap w)) (items c)
           | Some i \<Rightarrow> (map ((!) (heap w)) (items c))[i := add_line (heap w ! (items c ! i)) q])"
proof (cases "find_idx (\<lambda>r. same_line p v (heap w ! r)) (items c)")
  case None
  with run addToCart_eq [OF ok]
  have "persist (items c @ [length (heap w)]) (w\<lparr>heap := heap w @ [new_item p q v (clock w)]\<rparr>) = (res, w1)"
    by simp
  with nf ok None show ?thesis
    by (auto simp: persist_def updateCart_eq refs_ok_def find_idx_map comp_def nth_append)
next
  case (Some i)
  from find_idx_Some [OF Some] have i: "i < length (items c)" by simp
  with run addToCart_eq [OF ok] Some
  have "persist (items c) (w\<lparr>heap := (heap w)[items c ! i := add_line (heap w ! (items c ! i)) q]\<rparr>) = (res, w1)"
    by simp
  with nf ok Some i show ?thesis
    by (auto simp: persist_def updateCart_eq refs_ok_def find_idx_map comp_def map_nth_update_distinct)
qed

section \<open>Refinement: the hook computes the abstract operations\<close>

text \<open>
  C1. Run from a state whose references are distinct and allocated, every operation of
  the hook succeeds when \<open>localStorage\<close> accepts the write; the cart it passes to
  \<open>setCart\<close> has sound references, its value is the abstract operation applied to the
  value of the current cart, and the document stored under \<open>afpets_cart\<close> is that
  value.
\<close>

theorem run_op_refines:
  assumes "refs_ok w (items c)" and "\<not> storage_full w"
  shows "\<exists>c' w'. run_op op c w = (Inr c', w') \<and> refs_ok w' (items c')
           \<and> cart_value w' c' = spec_cart (spec_step (clock w) op (map ((!) (heap w)) (items c)))
           \<and> storage w' cart_key = Some (stored_cart (cart_value w' c'))"
proof -
  obtain w1 rs where run: "run_op op c w = persist rs w1"
    and prep: "prepared w w1 rs (spec_step (clock w) op (map ((!) (heap w)) (items c)))"
    using run_op_prepared [OF assms(1)] by blast
  from persist_ok [OF prep assms(2)] run show ?thesis
    by auto
qed

theorem run_op_refines_witness:
  "refs_ok world0 (items (empty_cart :: ref_cart)) \<and> \<not> storage_full world0
   \<and> (\<exists>c' w'. run_op (AddToCart productA (Fin 2) JUndef) empty_cart world0 = (Inr c', w')
        \<and> refs_ok w' (items c')
        \<and> cart_value w' c' = spec_cart (spec_step (clock world0) (AddToCart productA (Fin 2) JUndef)
                                 (map ((!) (heap world0)) (items (empty_cart :: ref_cart))))
        \<and> storage w' cart_key = Some (stored_cart (cart_value w' c')))"
proof -
  have h1: "refs_ok world0 (items (empty_cart :: ref_cart))"
    by (simp add: refs_ok_def empty_cart_def)
  have h2: "\<not> storage_full world0"
    by (simp add: world0_def)
  show ?thesis
    using h1 h2 run_op_refines [OF h1 h2, of "AddToCart productA (Fin 2) JUndef"] by blast
qed

text \<open>
  C2. The invariant of spec section 3 (count, subtotal and total agree with the items,
  every line total is price times quantity) and the soundness of the references hold
  after every operation of the hook when the write to \<open>localStorage\<close> succeeds.
\<close>

theorem hook_step_inv:
  assumes "hook_inv s" and "\<not> storage_full (snd s)"
  shows "hook_inv (hook_step op s)"
proof -
  obtain c w where s: "s = (c, w)" by fastforce
  let ?xs = "map ((!) (heap w)) (items c)"
  obtain w1 rs where run: "run_op op c w = persist rs w1"
    and prep: "prepared w w1 rs (spec_step (clock w) op ?xs)"
    using run_op_prepared assms(1) s by (fastforce simp: hook_inv_def)
  from persist_ok [OF prep] assms(2) s obtain c' w' where
    res: "persist rs w1 = (Inr c', w')" "refs_ok w' (items c')"
      "cart_value w' c' = spec_cart (spec_step (clock w) op ?xs)"
    by auto
  have "lines_ok ?xs"
    using assms(1) s by (simp add: hook_inv_def cart_value_items_ok)
  then have "cart_ok (spec_cart (spec_step (clock w) op ?xs))"
    by (simp add: spec_cart_ok spec_step_lines_ok)
  with res run s show ?thesis
    by (simp add: hook_step_def hook_inv_def)
qed

theorem hook_step_inv_witness:
  "hook_inv ((empty_cart :: ref_cart), world0) \<and> \<not> storage_full (snd ((empty_cart :: ref_cart), world0))
   \<and> hook_inv (hook_step (AddToCart productA (Fin 2) JUndef) (empty_cart, world0))"
proof -
  have h1: "hook_inv ((empty_cart :: ref_cart), world0)"
    by (simp add: hook_inv_def refs_ok_def empty_cart_def cart_ok_def totals_ok_def
        cart_value_def map_items_def)
  have h2: "\<not> storage_full (snd ((empty_cart :: ref_cart), world0))"
    by (simp add: world0_def)
  show ?thesis
    using h1 h2 hook_step_inv [OF h1 h2] by blast
qed

text \<open>
  C3. A session of the hook, one operation per render, computes the abstract operations in
  sequence: from sound references and a writable \<open>localStorage\<close>, after any list of
  operations the references are sound, the clock and the storage flag are unchanged, the
  items are the abstract fold of the operations over the starting items, and (when at
  least one operation ran) the cart is the abstract cart of those items and is what is
  stored.
\<close>

theorem hook_run_refines:
  assumes "refs_ok (snd s) (items (fst s))" and "\<not> storage_full (snd s)"
  shows "refs_ok (snd (fold hook_step ops s)) (items (fst (fold hook_step ops s)))
    \<and> \<not> storage_full (snd (fold hook_step ops s)) \<and> clock (snd (fold hook_step ops s)) = clock (snd s)
    \<and> items (hook_value (fold hook_step ops s)) = fold (spec_step (clock (snd s))) ops (items (hook_value s))
    \<and> (ops \<noteq> [] \<longrightarrow> hook_value (fold hook_step ops s)
          = spec_cart (fold (spec_step (clock (snd s))) ops (items (hook_value s)))
        \<and> storage (snd (fold hook_step ops s)) cart_key
          = Some (stored_cart (hook_value (fold hook_step ops s))))"
  using assms
proof (induction ops arbitrary: s)
  case Nil
  then show ?case by simp
next
  case (Cons op ops)
  note step = hook_step_value [OF Cons.prems, of op]
  have "items (hook_value (hook_step op s)) = spec_step (clock (snd s)) op (items (hook_value s))"
    using step by (simp add: spec_cart_def)
  with Cons.IH [of "hook_step op s"] step show ?case
    by (cases ops) (simp_all add: spec_cart_def)
qed

theorem hook_run_refines_witness:
  "hook_value (fold hook_step [AddToCart productA (Fin 1) JUndef, AddToCart productB (Fin 2) JUndef]
       ((empty_cart :: ref_cart), world0))
   = spec_cart [new_item productA (Fin 1) JUndef 1000, new_item productB (Fin 2) JUndef 1000]"
proof -
  let ?s0 = "((empty_cart :: ref_cart), world0)"
  let ?ops = "[AddToCart productA (Fin 1) JUndef, AddToCart productB (Fin 2) JUndef]"
  have h: "refs_ok (snd ?s0) (items (fst ?s0))" "\<not> storage_full (snd ?s0)"
    by (simp_all add: refs_ok_def empty_cart_def world0_def)
  have ne: "?ops \<noteq> []"
    by simp
  have "hook_value (fold hook_step ?ops ?s0)
      = spec_cart (fold (spec_step (clock (snd ?s0))) ?ops (items (hook_value ?s0)))"
    using hook_run_refines [OF h, of ?ops] ne by blast
  also have "fold (spec_step (clock (snd ?s0))) ?ops (items (hook_value ?s0))
      = [new_item productA (Fin 1) JUndef 1000, new_item productB (Fin 2) JUndef 1000]"
    by (simp add: empty_cart_def world0_def cart_value_def map_items_def spec_add_def
        same_line_def new_item_def example_defs)
  finally show ?thesis .
qed

section \<open>Failures, interleavings and the findings they show\<close>

text \<open>The definitions a concrete run unfolds, for evaluating scenarios.\<close>

lemmas eval_simps = hook_step_def addToCart_def removeFromCart_def updateQuantity_def
  clearCart_def findIndex_def same_line_def stringify_eq_def example_defs empty_cart_def
  persist_def updateCart_eq cart_value_def map_items_def new_item_def add_line_def set_qty_def
  Let_def show_nat.simps show_int_def

text \<open>
  C4. When \<open>localStorage.setItem\<close> throws, every operation rejects with that error
  and leaves the stored cart as it was; the hook state is not replaced, since
  \<open>setCart\<close> is never reached.
\<close>

theorem run_op_quota_error:
  assumes "refs_ok w (items c)" and "storage_full w"
  shows "(\<exists>w'. run_op op c w = (Inl QuotaExceededError, w') \<and> storage w' = storage w)
         \<and> fst (hook_step op (c, w)) = c"
proof -
  obtain w1 rs where run: "run_op op c w = persist rs w1"
    and prep: "prepared w w1 rs (spec_step (clock w) op (map ((!) (heap w)) (items c)))"
    using run_op_prepared [OF assms(1)] by blast
  have "storage_full w1"
    using prepared_full [OF prep] assms(2) by simp
  moreover have "storage w1 = storage w"
    using prep by (metis prepared_def world.select_convs(2) world.surjective world.update_convs(1))
  ultimately show ?thesis
    using run by (simp add: persist_full hook_step_def)
qed

theorem run_op_quota_error_witness:
  "refs_ok (world0\<lparr>storage_full := True\<rparr>) (items (empty_cart :: ref_cart))
   \<and> storage_full (world0\<lparr>storage_full := True\<rparr>)
   \<and> (\<exists>w'. run_op (AddToCart productA (Fin 1) JUndef) empty_cart (world0\<lparr>storage_full := True\<rparr>)
            = (Inl QuotaExceededError, w') \<and> storage w' = storage (world0\<lparr>storage_full := True\<rparr>))
   \<and> fst (hook_step (AddToCart productA (Fin 1) JUndef) (empty_cart, world0\<lparr>storage_full := True\<rparr>))
       = (empty_cart :: ref_cart)"
proof -
  have h1: "refs_ok (world0\<lparr>storage_full := True\<rparr>) (items (empty_cart :: ref_cart))"
    by (simp add: refs_ok_def empty_cart_def)
  have h2: "storage_full (world0\<lparr>storage_full := True\<rparr>)"
    by simp
  show ?thesis
    using h1 h2 run_op_quota_error [OF h1 h2, of "AddToCart productA (Fin 1) JUndef"] by blast
qed

text \<open>
  C5. Finding: \<open>addToCart\<close> on a product already in the cart increments the item
  object in place before \<open>updateCart\<close> runs. When the write to \<open>localStorage\<close> then
  throws, \<open>setCart\<close> is not reached, but the state the hook keeps already shows the new
  quantity while its \<open>item_count\<close> is the old one. From every state satisfying the
  invariant with finite quantities, a failed add of a non-zero quantity to an existing line
  leaves a state that breaks it.
\<close>

theorem failed_add_breaks_inv:
  assumes inv: "hook_inv (c, w)" and full: "storage_full w"
    and found: "find_idx (same_line p v) (items (hook_value (c, w))) = Some i"
    and fin: "\<forall>it \<in> set (items (hook_value (c, w))). fin_num (quantity it)"
    and q: "q = Fin r" and r: "r \<noteq> 0"
  shows "\<not> hook_inv (hook_step (AddToCart p q v) (c, w))"
proof
  let ?xs = "map ((!) (heap w)) (items c)"
  have ok: "refs_ok w (items c)" and cnt: "item_count c = sum_list (map quantity ?xs)"
    using inv by (simp_all add: hook_inv_def cart_ok_def totals_ok_def cart_value_def map_items_def)
  have f: "find_idx (same_line p v) ?xs = Some i"
    using found by (simp add: cart_value_def map_items_def)
  from find_idx_Some [OF f] have i: "i < length (items c)" "same_line p v (?xs ! i)"
    by auto
  let ?w1 = "w\<lparr>heap := (heap w)[items c ! i := add_line (heap w ! (items c ! i)) q]\<rparr>"
  have xs1: "map ((!) (heap ?w1)) (items c) = ?xs[i := add_line (?xs ! i) q]"
    using ok i by (simp add: refs_ok_def map_nth_update_distinct)
  assume "hook_inv (hook_step (AddToCart p q v) (c, w))"
  then have "totals_ok (cart_value ?w1 c) (items (cart_value ?w1 c))"
    using hook_step_add_full [OF ok full f] by (simp add: hook_inv_def cart_ok_def)
  then have "item_count (cart_value ?w1 c) = sum_list (map quantity (items (cart_value ?w1 c)))"
    by (simp only: totals_ok_def)
  then have "item_count c = sum_list (map quantity (?xs[i := add_line (?xs ! i) q]))"
    unfolding cart_value_items xs1 by (simp add: cart_value_def map_items_def)
  moreover obtain a where a: "quantity (?xs ! i) = Fin a"
    using fin i by (fastforce simp: fin_num_def split: jsnum.splits)
  moreover have "sum_list (map quantity (?xs[i := add_line (?xs ! i) q])) + quantity (?xs ! i)
      = sum_list (map quantity ?xs) + quantity (add_line (?xs ! i) q)"
    by (rule sum_list_map_update) (simp add: i)
  moreover have "fin_num (sum_list (map quantity ?xs))"
    using fin by (intro fin_num_sum_list) (simp add: cart_value_def map_items_def)
  ultimately have "a = a + r"
    using cnt q by (auto simp: add_line_def Let_def dest: fin_num_add_cancel)
  with r show False
    by simp
qed

theorem failed_add_breaks_inv_witness:
  "\<not> hook_inv (hook_step (AddToCart productA (Fin 1) JUndef)
       (fst (hook_step (AddToCart productA (Fin 1) JUndef) ((empty_cart :: ref_cart), world0)),
        (snd (hook_step (AddToCart productA (Fin 1) JUndef) ((empty_cart :: ref_cart), world0)))
          \<lparr>storage_full := True\<rparr>))"
proof -
  let ?s = "hook_step (AddToCart productA (Fin 1) JUndef) ((empty_cart :: ref_cart), world0)"
  let ?w = "(snd ?s)\<lparr>storage_full := True\<rparr>"
  have h1: "hook_inv (fst ?s, ?w)"
    by (simp add: eval_simps hook_inv_def refs_ok_def cart_ok_def totals_ok_def)
  have h2: "storage_full ?w"
    by simp
  have h3: "find_idx (same_line productA JUndef) (items (hook_value (fst ?s, ?w))) = Some 0"
    by (simp add: eval_simps)
  have h4: "\<forall>it \<in> set (items (hook_value (fst ?s, ?w))). fin_num (quantity it)"
    by (simp add: eval_simps fin_num_def)
  show ?thesis
    by (rule failed_add_breaks_inv [OF h1 h2 h3 h4, of "Fin 1" 1]) simp_all
qed

text \<open>
  C6. Finding: operations started from the same render (one handler calling
  \<open>addToCart\<close> and then another operation, or a second click before the re-render) all
  read the \<open>cart.items\<close> of that render. The second operation's \<open>setCart\<close> and its
  \<open>localStorage\<close> write replace the first's, and the first add survives only through
  the aliasing: when it merged into an existing line, the in-place increment is seen by the
  second operation; when it added a new line, that line is lost.
\<close>

theorem batch_add_then_op:
  assumes ok: "refs_ok w (items c)" and nf: "\<not> storage_full w"
  shows "hook_value (run_batch [AddToCart p q v, op] c (c, w))
    = spec_cart (spec_step (clock w) op
        (case find_idx (same_line p v) (items (hook_value (c, w))) of
           None \<Rightarrow> items (hook_value (c, w))
         | Some i \<Rightarrow> (items (hook_value (c, w)))[i := add_line (items (hook_value (c, w)) ! i) q]))"
proof -
  obtain res w1 where a: "addToCart c p q v w = (res, w1)" by fastforce
  note w1 = addToCart_world [OF ok nf a]
  obtain c2 w2 where b: "run_op op c w1 = (Inr c2, w2)"
    and v2: "cart_value w2 c2 = spec_cart (spec_step (clock w1) op (map ((!) (heap w1)) (items c)))"
    using run_op_persisted [of w1 c op] w1 by blast
  have "run_batch [AddToCart p q v, op] c (c, w) = (c2, w2)"
    using a b by (cases res) simp_all
  moreover have "map ((!) (heap w1)) (items c)
      = (case find_idx (same_line p v) (items (hook_value (c, w))) of
           None \<Rightarrow> items (hook_value (c, w))
         | Some i \<Rightarrow> (items (hook_value (c, w)))[i := add_line (items (hook_value (c, w)) ! i) q])"
    using w1 ok by (auto simp: refs_ok_def split: option.splits dest: find_idx_Some)
  ultimately show ?thesis
    using v2 w1 by simp
qed

theorem batch_add_then_op_witness:
  "hook_value (run_batch [AddToCart productA (Fin 1) JUndef, AddToCart productB (Fin 1) JUndef]
       empty_cart (empty_cart, world0))
   = spec_cart [new_item productB (Fin 1) JUndef 1000]"
proof -
  have h: "refs_ok world0 (items (empty_cart :: ref_cart))" "\<not> storage_full world0"
    by (simp_all add: refs_ok_def empty_cart_def world0_def)
  from batch_add_then_op [OF h, of productA "Fin 1" JUndef "AddToCart productB (Fin 1) JUndef"] show ?thesis
    by (simp add: spec_add_def empty_cart_def world0_def cart_value_def map_items_def)
qed

end
