(* ===== verification/AppShell.thy ===== *)
theory AppShell
  imports UseCart "HOL-Library.Multiset"
begin

text \<open>
  The application shell: the route table of \<open>src/src/App.tsx\<close>, the menu state it owns,
  and \<open>src/src/components/Header.tsx\<close>, which calls \<open>useCart\<close> itself to draw the cart
  badge. Every component that calls \<open>useCart\<close> has its own instance (its own state,
  read from \<open>localStorage\<close> when it mounts); the instances share only \<open>localStorage\<close>.
  The Header is rendered outside \<open>Routes\<close> and is never remounted by navigation; the
  routed page is remounted when the matched route changes. The pages themselves are not
  part of the sources: the routed page is modelled as one \<open>useCart\<close> instance that may
  run any cart operation.
\<close>

section \<open>Routes\<close>

datatype page =
    LandingPage
  | StorePage
  | ProductPage string
  | CartPage
  | CheckoutPage
  | AccountPage
  | WhatsAppPage
  | RoadmapPage

text \<open>
  A route path as React Router compiles it: literal segments, compared without regard to
  ASCII case (\<open>caseSensitive\<close> is false by default), and \<open>:param\<close> segments, which match
  one non-empty segment without \<open>/\<close>. Trailing slashes are ignored.
\<close>

datatype segment = Static string | Dynamic

definition lower_ascii :: "char \<Rightarrow> char" where
  "lower_ascii c =
     (if (65::nat) \<le> of_char c \<and> of_char c \<le> (90::nat) then char_of (of_char c + (32::nat)) else c)"

fun split_slash :: "string \<Rightarrow> string list" where
  "split_slash [] = [[]]"
| "split_slash (c # cs) =
     (let r = split_slash cs in if c = CHR ''/'' then [] # r else (c # hd r) # tl r)"

text \<open>The segments of a location's pathname, which always starts with \<open>/\<close>.\<close>

definition path_segments :: "string \<Rightarrow> string list option" where
  "path_segments p =
     (case p of
        c # rest \<Rightarrow>
          if c = CHR ''/'' then Some (rev (dropWhile (\<lambda>s. s = []) (rev (split_slash rest))))
          else None
      | [] \<Rightarrow> None)"

fun seg_match :: "segment list \<Rightarrow> string list \<Rightarrow> string list option" where
  "seg_match [] [] = Some []"
| "seg_match (Static s # pat) (x # xs) =
     (if map lower_ascii x = map lower_ascii s then seg_match pat xs else None)"
| "seg_match (Dynamic # pat) (x # xs) =
     (if x = [] then None else map_option (Cons x) (seg_match pat xs))"
| "seg_match _ _ = None"

text \<open>The \<open><Routes>\<close> of \<open>App\<close>, in declaration order.\<close>

definition app_routes :: "(segment list \<times> (string list \<Rightarrow> page)) list" where
  "app_routes =
     [([], \<lambda>ps. LandingPage),
      ([Static ''tienda''], \<lambda>ps. StorePage),
      ([Static ''producto'', Dynamic], \<lambda>ps. ProductPage (hd ps)),
      ([Static ''carrito''], \<lambda>ps. CartPage),
      ([Static ''checkout''], \<lambda>ps. CheckoutPage),
      ([Static ''mi-cuenta''], \<lambda>ps. AccountPage),
      ([Static ''whatsapp''], \<lambda>ps. WhatsAppPage),
      ([Static ''roadmap''], \<lambda>ps. RoadmapPage)]"

fun first_route :: "(segment list \<times> (string list \<Rightarrow> page)) list \<Rightarrow> string list \<Rightarrow> page option" where
  "first_route [] xs = None"
| "first_route ((pat, mk) # rs) xs =
     (case seg_match pat xs of Some ps \<Rightarrow> Some (mk ps) | None \<Rightarrow> first_route rs xs)"

text \<open>The page \<open>Routes\<close> renders at a location; \<open>None\<close>: no route matches, nothing is rendered.\<close>

definition route :: "string \<Rightarrow> page option" where
  "route p = (case path_segments p of None \<Rightarrow> None | Some xs \<Rightarrow> first_route app_routes xs)"

text \<open>The route entry a page comes from: two locations of one entry share the element.\<close>

definition route_entry :: "page option \<Rightarrow> page option" where
  "route_entry p = map_option (\<lambda>q. case q of ProductPage s \<Rightarrow> ProductPage [] | _ \<Rightarrow> q) p"

section \<open>The Header\<close>

text \<open>The targets of the navigation links (desktop and mobile lists) and of the cart icon.\<close>

definition nav_links :: "string list" where
  "nav_links = [''/'', ''/tienda'', ''/whatsapp'', ''/roadmap'']"

definition cart_link :: string where
  "cart_link = ''/carrito''"

text \<open>\<open>{cart.item_count > 0 && <span>{cart.item_count}</span>}\<close>: the badge, if drawn.\<close>

definition cart_badge :: "'i cart \<Rightarrow> jsnum option" where
  "cart_badge c = (if js_gt (item_count c) 0 then Some (item_count c) else None)"

section \<open>The application state\<close>

record app_state =
  menu_open :: bool
  location :: string
  header_cart :: ref_cart
  page_cart :: ref_cart
  browser :: world

text \<open>
  Mounting a \<open>useCart\<close> instance: the \<open>useState\<close> initializer reads the stored cart,
  then the mount effect reads it again and replaces the state. A read that throws aborts
  the render: \<open>None\<close> below is the application unmounted by the error.
\<close>

definition mount_cart :: "world \<Rightarrow> js_error + (ref_cart \<times> world)" where
  "mount_cart w =
     (case getCartFromStorage w of
        Inl e \<Rightarrow> Inl e
      | Inr (c0, w0) \<Rightarrow> getCartFromStorage w0)"

text \<open>Loading the page at a location: the Header's instance, then the routed page's.\<close>

definition app_load :: "string \<Rightarrow> world \<Rightarrow> app_state option" where
  "app_load loc w =
     (case mount_cart w of
        Inl e \<Rightarrow> None
      | Inr (hc, w1) \<Rightarrow>
          (case mount_cart w1 of
             Inl e \<Rightarrow> None
           | Inr (pc, w2) \<Rightarrow>
               Some \<lparr>menu_open = False, location = loc, header_cart = hc, page_cart = pc,
                     browser = w2\<rparr>))"

text \<open>
  Following a \<open><Link>\<close>: the location changes; the routed page is remounted (a fresh
  \<open>useCart\<close> instance) only when the matched route entry changes. The Header stays.
\<close>

definition navigate :: "string \<Rightarrow> app_state \<Rightarrow> app_state option" where
  "navigate l s =
     (if route_entry (route l) = route_entry (route (location s)) then Some (s\<lparr>location := l\<rparr>)
      else
        (case mount_cart (browser s) of
           Inl e \<Rightarrow> None
         | Inr (pc, w) \<Rightarrow> Some (s\<lparr>location := l, page_cart := pc, browser := w\<rparr>)))"

datatype app_event =
    ToggleMenu
  | NavLink nat
  | MobileLink nat
  | CartIcon
  | FollowLink string
  | PageOp cart_op
  | Reload

text \<open>
  One event. The Header's own controls, one event per element:
  \<^item> the menu button (\<open>setIsMenuOpen(!isMenuOpen)\<close>);
  \<^item> the \<open>i\<close>-th link of the desktop navigation (no \<open>onClick\<close>);
  \<^item> the \<open>i\<close>-th link of the mobile menu (\<open>onClick={() => setIsMenuOpen(false)}\<close>);
  \<^item> the cart icon (no \<open>onClick\<close>).
  The others:
  \<^item> a link inside the routed page (the pages are not in the sources);
  \<^item> a cart operation of the page's instance;
  \<^item> a full reload (a new JavaScript heap, the same \<open>localStorage\<close>).
  The mobile links are rendered only while the menu is open (\<open>{isMenuOpen && ...}\<close>).
  A link that is not rendered, or an index past the end of the list, names no element and
  changes nothing.
\<close>

fun app_step :: "app_event \<Rightarrow> app_state \<Rightarrow> app_state option" where
  "app_step ToggleMenu s = Some (s\<lparr>menu_open := \<not> menu_open s\<rparr>)"
| "app_step (NavLink i) s = (if i < length nav_links then navigate (nav_links ! i) s else Some s)"
| "app_step (MobileLink i) s =
     (if menu_open s \<and> i < length nav_links then navigate (nav_links ! i) (s\<lparr>menu_open := False\<rparr>)
      else Some s)"
| "app_step CartIcon s = navigate cart_link s"
| "app_step (FollowLink l) s = navigate l s"
| "app_step (PageOp op) s =
     (case hook_step op (page_cart s, browser s) of (c, w) \<Rightarrow> Some (s\<lparr>page_cart := c, browser := w\<rparr>))"
| "app_step Reload s = app_load (location s) ((browser s)\<lparr>heap := []\<rparr>)"

fun run_app :: "app_event list \<Rightarrow> app_state \<Rightarrow> app_state option" where
  "run_app [] s = Some s"
| "run_app (e # es) s = (case app_step e s of None \<Rightarrow> None | Some s' \<Rightarrow> run_app es s')"

section \<open>Reachable states and the separation of the instances\<close>

text \<open>
  The two \<open>useCart\<close> instances hold sound references to disjoint sets of objects.
\<close>

definition app_inv :: "app_state \<Rightarrow> bool" where
  "app_inv s \<longleftrightarrow>
     refs_ok (browser s) (items (header_cart s)) \<and> refs_ok (browser s) (items (page_cart s))
     \<and> set (items (header_cart s)) \<inter> set (items (page_cart s)) = {}"

text \<open>The states of a session: loaded in a fresh JavaScript heap, then any events.\<close>

inductive app_reach :: "app_state \<Rightarrow> bool" where
  load: "heap w = [] \<Longrightarrow> app_load loc w = Some s \<Longrightarrow> app_reach s"
| step: "app_reach s \<Longrightarrow> app_step e s = Some s' \<Longrightarrow> app_reach s'"

text \<open>
  The key of a route entry (pattern length, first literal in lower case) and of a path: a
  route can only match a path with the same key.
\<close>

definition route_key :: "segment list \<times> (string list \<Rightarrow> page) \<Rightarrow> nat \<times> string" where
  "route_key r = (length (fst r), case fst r of Static s # _ \<Rightarrow> map lower_ascii s | _ \<Rightarrow> [])"

definition path_key :: "string list \<Rightarrow> nat \<times> string" where
  "path_key xs = (length xs, case xs of x # _ \<Rightarrow> map lower_ascii x | [] \<Rightarrow> [])"

section \<open>Lemmas on the application\<close>

lemma mount_cart_frame:
  assumes "mount_cart w = Inr (c, w')"
  shows "(\<exists>ys. heap w' = heap w @ ys) \<and> set (items c) \<subseteq> {length (heap w) ..< length (heap w')}
    \<and> w' = w\<lparr>heap := heap w'\<rparr> \<and> refs_ok w' (items c)"
proof -
  obtain c0 w0 where m0: "getCartFromStorage w = Inr (c0, w0)" and m1: "getCartFromStorage w0 = Inr (c, w')"
    using assms by (auto simp: mount_cart_def split: sum.splits)
  from getCartFromStorage_frame [OF m0] getCartFromStorage_frame [OF m1]
    getCartFromStorage_refs_ok [OF m1] show ?thesis
    by (cases w; cases w0; cases w') auto
qed

lemma below_fresh_disjoint:
  fixes n m :: nat
  assumes "\<forall>r \<in> A. r < n" and "B \<subseteq> {n ..< m}"
  shows "A \<inter> B = {}"
proof (rule equals0I)
  fix x
  assume x: "x \<in> A \<inter> B"
  then have "x < n"
    using assms(1) by blast
  moreover have "x \<in> {n ..< m}"
    using assms(2) x by blast
  ultimately show False
    by simp
qed

lemma app_load_inv:
  assumes "app_load loc w = Some s"
  shows "app_inv s"
proof -
  obtain hc w1 pc w2 where m1: "mount_cart w = Inr (hc, w1)" and m2: "mount_cart w1 = Inr (pc, w2)"
    and s: "s = \<lparr>menu_open = False, location = loc, header_cart = hc, page_cart = pc, browser = w2\<rparr>"
    using assms by (auto simp: app_load_def split: sum.splits)
  from mount_cart_frame [OF m1] mount_cart_frame [OF m2]
  have "refs_ok w2 (items hc)" "refs_ok w2 (items pc)"
    "\<forall>r \<in> set (items hc). r < length (heap w1)"
    "set (items pc) \<subseteq> {length (heap w1) ..< length (heap w2)}"
    by (auto intro: refs_ok_extend)
  with s show ?thesis
    by (simp add: app_inv_def below_fresh_disjoint)
qed

lemma navigate_inv:
  assumes "app_inv s" and "navigate l s = Some s'"
  shows "app_inv s' \<and> header_cart s' = header_cart s
    \<and> heap_frame (browser s) (browser s') (set (items (page_cart s)))"
proof (cases "route_entry (route l) = route_entry (route (location s))")
  case True
  with assms show ?thesis
    by (auto simp: navigate_def app_inv_def heap_frame_def)
next
  case False
  then obtain pc w where m: "mount_cart (browser s) = Inr (pc, w)"
    and s': "s' = s\<lparr>location := l, page_cart := pc, browser := w\<rparr>"
    using assms(2) by (auto simp: navigate_def split: sum.splits)
  from mount_cart_frame [OF m] obtain ys where "heap w = heap (browser s) @ ys" by blast
  with mount_cart_frame [OF m] assms(1)
  have "refs_ok w (items (header_cart s))" "refs_ok w (items pc)"
    "set (items (header_cart s)) \<inter> set (items pc) = {}"
    "heap_frame (browser s) w (set (items (page_cart s)))"
    by (auto simp: app_inv_def refs_ok_def heap_frame_def nth_append intro!: below_fresh_disjoint)
  with s' show ?thesis
    by (simp add: app_inv_def)
qed

lemma page_op_inv:
  assumes inv: "app_inv s" and st: "app_step (PageOp op) s = Some s'"
  shows "app_inv s' \<and> header_cart s' = header_cart s
    \<and> heap_frame (browser s) (browser s') (set (items (page_cart s)))"
proof -
  obtain c w where h: "hook_step op (page_cart s, browser s) = (c, w)" by fastforce
  with st have s': "s' = s\<lparr>page_cart := c, browser := w\<rparr>"
    by simp
  have ok: "refs_ok (browser s) (items (page_cart s))"
    using inv by (simp add: app_inv_def)
  note fr = hook_step_frame [OF ok h]
  have hd: "\<forall>r \<in> set (items (header_cart s)). r < length (heap (browser s))"
    using inv by (simp add: app_inv_def refs_ok_def)
  have "set (items (header_cart s)) \<inter> set (items c) = {}"
  proof (rule equals0I)
    fix x
    assume x: "x \<in> set (items (header_cart s)) \<inter> set (items c)"
    with fr have "x \<in> set (items (page_cart s)) \<or> x \<in> {length (heap (browser s)) ..< length (heap w)}"
      by blast
    with x hd inv show False
      by (auto simp: app_inv_def)
  qed
  moreover have "refs_ok w (items (header_cart s))"
    using inv fr by (auto simp: app_inv_def heap_frame_def intro: refs_ok_extend)
  ultimately show ?thesis
    using fr s' by (simp add: app_inv_def)
qed

lemma app_step_inv:
  assumes "app_inv s" and "app_step e s = Some s'"
  shows "app_inv s' \<and> (e \<noteq> Reload \<longrightarrow> header_cart s' = header_cart s
    \<and> heap_frame (browser s) (browser s') (set (items (page_cart s))))"
proof (cases e)
  case ToggleMenu
  with assms show ?thesis by (auto simp: app_inv_def heap_frame_def)
next
  case (NavLink i)
  show ?thesis
  proof (cases "i < length nav_links")
    case True
    with assms NavLink navigate_inv [of s "nav_links ! i" s'] show ?thesis
      by simp
  next
    case False
    with assms NavLink show ?thesis
      by (auto simp: heap_frame_def)
  qed
next
  case (MobileLink i)
  have "app_inv (s\<lparr>menu_open := False\<rparr>)"
    using assms(1) by (simp add: app_inv_def)
  with assms MobileLink navigate_inv [of "s\<lparr>menu_open := False\<rparr>" "nav_links ! i" s'] show ?thesis
    by (auto simp: heap_frame_def split: if_splits)
next
  case CartIcon
  with assms show ?thesis by (simp add: navigate_inv)
next
  case (FollowLink l)
  with assms show ?thesis by (simp add: navigate_inv)
next
  case (PageOp op)
  with assms show ?thesis by (simp add: page_op_inv)
next
  case Reload
  with assms show ?thesis by (simp add: app_load_inv)
qed

lemma app_reach_inv: "app_reach s \<Longrightarrow> app_inv s"
proof (induction rule: app_reach.induct)
  case (load w loc s)
  then show ?case by (simp add: app_load_inv)
next
  case (step s e s')
  then show ?case using app_step_inv by blast
qed

lemma frame_keeps_other:
  assumes "heap_frame w w' P" and "set rs \<inter> P = {}" and "refs_ok w rs"
  shows "map ((!) (heap w')) rs = map ((!) (heap w)) rs"
  using assms by (auto simp: heap_frame_def refs_ok_def)

lemma app_load_world0:
  "app_load loc world0 =
     Some \<lparr>menu_open = False, location = loc, header_cart = empty_cart, page_cart = empty_cart,
           browser = world0\<rparr>"
  by (simp add: app_load_def mount_cart_def getCartFromStorage_def world0_def)

lemma split_slash_no_slash: "CHR ''/'' \<notin> set s \<Longrightarrow> split_slash s = [s]"
  by (induction s) (auto simp: Let_def)

lemma seg_match_length: "seg_match pat xs = Some ps \<Longrightarrow> length pat = length xs"
  by (induction pat xs arbitrary: ps rule: seg_match.induct) (auto split: if_splits)

lemma seg_match_Static:
  "seg_match (Static s # pat) xs \<noteq> None \<Longrightarrow> \<exists>x xs'. xs = x # xs' \<and> map lower_ascii x = map lower_ascii s"
  by (cases xs) (auto split: if_splits)

lemma route_key_match:
  assumes "r \<in> set app_routes" and "seg_match (fst r) xs \<noteq> None"
  shows "route_key r = path_key xs"
proof -
  have len: "length (fst r) = length xs"
    using assms(2) seg_match_length by blast
  from assms(1) have "fst r = [] \<or> (\<exists>s pat. fst r = Static s # pat)"
    by (auto simp: app_routes_def)
  then show ?thesis
  proof
    assume "fst r = []"
    with len show ?thesis
      by (simp add: route_key_def path_key_def)
  next
    assume "\<exists>s pat. fst r = Static s # pat"
    then obtain s pat where "fst r = Static s # pat" by blast
    with assms(2) len seg_match_Static [of s pat xs] show ?thesis
      by (auto simp: route_key_def path_key_def)
  qed
qed

lemma length_filter_same_key:
  assumes "distinct (map f rs)" and "\<forall>r \<in> set rs. P r \<longrightarrow> f r = k"
  shows "length (filter P rs) \<le> 1"
proof -
  have "distinct (map f (filter P rs))"
    using assms(1) by (simp add: distinct_map_filter)
  moreover have "set (map f (filter P rs)) \<subseteq> {k}"
    using assms(2) by auto
  ultimately have "length (map f (filter P rs)) \<le> card {k}"
    by (metis card_mono distinct_card finite.emptyI finite.insertI)
  then show ?thesis
    by simp
qed

lemma at_most_one_match:
  "length (filter (\<lambda>r. seg_match (fst r) xs \<noteq> None) app_routes) \<le> 1"
proof (rule length_filter_same_key)
  show "distinct (map route_key app_routes)"
    by (simp add: app_routes_def route_key_def lower_ascii_def)
  show "\<forall>r \<in> set app_routes. seg_match (fst r) xs \<noteq> None \<longrightarrow> route_key r = path_key xs"
    using route_key_match by blast
qed

lemma first_route_filter:
  "first_route rs xs =
     (case filter (\<lambda>r. seg_match (fst r) xs \<noteq> None) rs of
        [] \<Rightarrow> None
      | r # _ \<Rightarrow> Some (snd r (the (seg_match (fst r) xs))))"
  by (induction rs xs rule: first_route.induct) (auto split: option.splits)

lemma short_mset_eq: "length xs \<le> 1 \<Longrightarrow> mset xs = mset ys \<Longrightarrow> xs = ys"
  by (cases xs) (auto simp: mset_single_iff)

lemma run_app_reach: "app_reach s \<Longrightarrow> run_app evs s = Some s' \<Longrightarrow> app_reach s'"
  by (induction evs arbitrary: s) (auto split: option.splits intro: app_reach.step)

lemma mount_cart_stored:
  assumes "storage w cart_key = Some (stored_cart cv)"
  shows "\<exists>c w'. mount_cart w = Inr (c, w') \<and> cart_value w' c = cart_back cv
           \<and> heap w' = heap w @ map item_back (items cv) @ map item_back (items cv)
           \<and> storage w' = storage w"
proof -
  obtain c0 w0 where m0: "getCartFromStorage w = Inr (c0, w0)"
    and h0: "heap w0 = heap w @ map item_back (items cv)" and s0: "storage w0 = storage w"
    using getCartFromStorage_stored [OF assms] by blast
  with assms obtain c w' where "getCartFromStorage w0 = Inr (c, w')" "cart_value w' c = cart_back cv"
    "heap w' = heap w0 @ map item_back (items cv)" "storage w' = storage w0"
    using getCartFromStorage_stored [of w0 cv] by auto
  with m0 h0 s0 show ?thesis
    by (simp add: mount_cart_def)
qed

lemma navigate_menu: "navigate l s = Some s' \<Longrightarrow> menu_open s' = menu_open s \<and> location s' = l"
  by (auto simp: navigate_def split: if_splits sum.splits)

section \<open>The Header, the page and the routes\<close>

text \<open>
  C22. The Header's cart never changes without a reload: in every reachable state, every
  event but a reload leaves the Header's \<open>useCart\<close> state and the objects it refers to
  as they were, whatever the page's instance does to its own cart and to
  \<open>localStorage\<close>. Its badge (\<open>cart.item_count\<close>) is frozen at the value read at
  mount.
\<close>

theorem header_frozen:
  assumes "app_reach s" and "app_step e s = Some s'" and "e \<noteq> Reload"
  shows "header_cart s' = header_cart s
    \<and> cart_value (browser s') (header_cart s') = cart_value (browser s) (header_cart s)"
proof -
  have inv: "app_inv s"
    using assms(1) by (rule app_reach_inv)
  with assms(2,3) have "header_cart s' = header_cart s"
    and fr: "heap_frame (browser s) (browser s') (set (items (page_cart s)))"
    using app_step_inv by blast+
  moreover have "map ((!) (heap (browser s'))) (items (header_cart s))
      = map ((!) (heap (browser s))) (items (header_cart s))"
    using inv by (intro frame_keeps_other [OF fr]) (simp_all add: app_inv_def)
  ultimately show ?thesis
    by (simp add: cart_value_def map_items_def)
qed

theorem header_frozen_witness:
  "app_reach \<lparr>menu_open = False, location = ''/tienda'', header_cart = empty_cart,
               page_cart = empty_cart, browser = world0\<rparr>
   \<and> app_step (PageOp (AddToCart productA (Fin 1) JUndef))
        \<lparr>menu_open = False, location = ''/tienda'', header_cart = empty_cart,
         page_cart = empty_cart, browser = world0\<rparr>
      = Some (the (app_step (PageOp (AddToCart productA (Fin 1) JUndef))
        \<lparr>menu_open = False, location = ''/tienda'', header_cart = empty_cart,
         page_cart = empty_cart, browser = world0\<rparr>))
   \<and> cart_badge (header_cart (the (app_step (PageOp (AddToCart productA (Fin 1) JUndef))
        \<lparr>menu_open = False, location = ''/tienda'', header_cart = empty_cart,
         page_cart = empty_cart, browser = world0\<rparr>))) = None"
proof -
  let ?s = "\<lparr>menu_open = False, location = ''/tienda'', header_cart = (empty_cart :: ref_cart),
             page_cart = empty_cart, browser = world0\<rparr>"
  let ?e = "PageOp (AddToCart productA (Fin 1) JUndef)"
  have r: "app_reach ?s"
    by (rule app_reach.load [of world0 "''/tienda''"]) (simp add: world0_def, rule app_load_world0)
  have st: "app_step ?e ?s = Some (the (app_step ?e ?s))"
    by (simp split: prod.splits)
  have "header_cart (the (app_step ?e ?s)) = header_cart ?s"
    using header_frozen [OF r st] by simp
  with r st show ?thesis
    by (simp add: cart_badge_def empty_cart_def js_gt_def)
qed

text \<open>
  C23. In every session (a load into a fresh heap followed by any events) the two
  \<open>useCart\<close> instances hold distinct, allocated references to disjoint sets of item
  objects: no operation of one instance can mutate an object the other renders.
\<close>

theorem session_separation:
  assumes "heap w = []" and "app_load loc w = Some s" and "run_app evs s = Some s'"
  shows "app_inv s'"
  using app_reach.load [OF assms(1,2)] assms(3) by (blast intro: app_reach_inv run_app_reach)

theorem session_separation_witness:
  "heap world0 = [] \<and> app_load ''/'' world0 = Some \<lparr>menu_open = False, location = ''/'',
      header_cart = empty_cart, page_cart = empty_cart, browser = world0\<rparr>
   \<and> run_app [PageOp (AddToCart productA (Fin 1) JUndef)]
       \<lparr>menu_open = False, location = ''/'', header_cart = empty_cart, page_cart = empty_cart,
        browser = world0\<rparr>
     = Some (the (run_app [PageOp (AddToCart productA (Fin 1) JUndef)]
       \<lparr>menu_open = False, location = ''/'', header_cart = empty_cart, page_cart = empty_cart,
        browser = world0\<rparr>))
   \<and> app_inv (the (run_app [PageOp (AddToCart productA (Fin 1) JUndef)]
       \<lparr>menu_open = False, location = ''/'', header_cart = empty_cart, page_cart = empty_cart,
        browser = world0\<rparr>))"
proof -
  let ?s = "\<lparr>menu_open = False, location = ''/'', header_cart = (empty_cart :: ref_cart),
             page_cart = empty_cart, browser = world0\<rparr>"
  let ?es = "[PageOp (AddToCart productA (Fin 1) JUndef)]"
  have h: "heap world0 = []" "app_load ''/'' world0 = Some ?s"
    by (simp add: world0_def, rule app_load_world0)
  have r: "run_app ?es ?s = Some (the (run_app ?es ?s))"
    by (simp split: prod.splits)
  from session_separation [OF h r] h r show ?thesis
    by simp
qed

text \<open>
  C24. A reload after a successful page operation brings both instances back in step: the
  Header and the page then show the cart the operation stored (up to the JSON round trip).
\<close>

theorem reload_resyncs_header:
  assumes "hook_inv (page_cart s, browser s)" and "\<not> storage_full (browser s)"
  shows "\<exists>s2. run_app [PageOp op, Reload] s = Some s2
    \<and> cart_value (browser s2) (header_cart s2) = cart_back (hook_value (hook_step op (page_cart s, browser s)))
    \<and> cart_value (browser s2) (page_cart s2) = cart_back (hook_value (hook_step op (page_cart s, browser s)))"
proof -
  obtain c w where h: "hook_step op (page_cart s, browser s) = (c, w)" by fastforce
  have "refs_ok (browser s) (items (page_cart s))"
    using assms(1) by (simp add: hook_inv_def)
  with hook_step_value [of "(page_cart s, browser s)" op] assms(2) h
  have st: "storage (w\<lparr>heap := []\<rparr>) cart_key = Some (stored_cart (cart_value w c))"
    by simp
  obtain hc w1 where m1: "mount_cart (w\<lparr>heap := []\<rparr>) = Inr (hc, w1)"
    and v1: "cart_value w1 hc = cart_back (cart_value w c)" and s1: "storage w1 = storage w"
    using mount_cart_stored [OF st] by auto
  obtain pc w2 where m2: "mount_cart w1 = Inr (pc, w2)"
    and v2: "cart_value w2 pc = cart_back (cart_value w c)"
    using mount_cart_stored [of w1 "cart_value w c"] st s1 by auto
  have "refs_ok w1 (items hc)"
    using mount_cart_frame [OF m1] by simp
  moreover obtain ys where "heap w2 = heap w1 @ ys"
    using mount_cart_frame [OF m2] by blast
  ultimately have "cart_value w2 hc = cart_value w1 hc"
    by (simp add: cart_value_def map_items_def refs_ok_def)
  with h m1 m2 v1 v2 show ?thesis
    by (simp add: app_load_def)
qed

theorem reload_resyncs_header_witness:
  "hook_inv (page_cart \<lparr>menu_open = False, location = ''/'', header_cart = empty_cart,
                         page_cart = empty_cart, browser = world0\<rparr>, world0)
   \<and> \<not> storage_full world0
   \<and> (\<exists>s2. run_app [PageOp (AddToCart productA (Fin 1) JUndef), Reload]
              \<lparr>menu_open = False, location = ''/'', header_cart = empty_cart,
               page_cart = empty_cart, browser = world0\<rparr> = Some s2
        \<and> cart_value (browser s2) (header_cart s2)
          = cart_back (hook_value (hook_step (AddToCart productA (Fin 1) JUndef) (empty_cart, world0)))
        \<and> cart_value (browser s2) (page_cart s2)
          = cart_back (hook_value (hook_step (AddToCart productA (Fin 1) JUndef) (empty_cart, world0))))"
proof -
  let ?s = "\<lparr>menu_open = False, location = ''/'', header_cart = (empty_cart :: ref_cart),
             page_cart = empty_cart, browser = world0\<rparr>"
  have h1: "hook_inv (page_cart ?s, browser ?s)"
    by (simp add: hook_inv_def refs_ok_def empty_cart_def cart_ok_def totals_ok_def
        cart_value_def map_items_def)
  have h2: "\<not> storage_full (browser ?s)"
    by (simp add: world0_def)
  from reload_resyncs_header [OF h1 h2, of "AddToCart productA (Fin 1) JUndef"] h1 h2 show ?thesis
    by simp
qed

text \<open>
  C25. React Router ranks routes instead of taking the first in declaration order; since no
  path matches two entries of the table, any order of the entries selects the same page
  as the first-match model.
\<close>

theorem route_order_irrelevant:
  assumes "mset rs = mset app_routes"
  shows "first_route rs xs = first_route app_routes xs"
proof -
  let ?P = "\<lambda>r. seg_match (fst r) xs \<noteq> None"
  have "mset (filter ?P rs) = mset (filter ?P app_routes)"
    using assms by (simp only: mset_filter)
  then have "filter ?P app_routes = filter ?P rs"
    by (intro short_mset_eq [OF at_most_one_match]) simp
  then show ?thesis
    by (simp add: first_route_filter)
qed

theorem route_order_irrelevant_witness:
  "mset (rev app_routes) = mset app_routes
   \<and> first_route (rev app_routes) [''tienda''] = first_route app_routes [''tienda'']"
  using route_order_irrelevant [where rs = "rev app_routes" and xs = "[''tienda'']"] by simp

text \<open>
  C26. Every non-empty slug without \<open>/\<close> under \<open>/producto/\<close> selects the product
  page with that slug.
\<close>

theorem product_route:
  assumes "s \<noteq> []" and "CHR ''/'' \<notin> set s"
  shows "route (''/producto/'' @ s) = Some (ProductPage s)"
proof -
  have "split_slash (''producto/'' @ s) = [''producto'', s]"
    using assms(2) by (simp add: split_slash_no_slash)
  then have "path_segments (''/producto/'' @ s) = Some [''producto'', s]"
    using assms(1) by (simp add: path_segments_def)
  then show ?thesis
    using assms(1) by (simp add: route_def app_routes_def lower_ascii_def)
qed

theorem product_route_witness: "route ''/producto/collar'' = Some (ProductPage ''collar'')"
proof -
  have "''collar'' \<noteq> []" "CHR ''/'' \<notin> set ''collar''"
    by simp_all
  from product_route [OF this] show ?thesis
    by simp
qed

text \<open>
  C27. The cart icon does not close the mobile menu: following it keeps the menu state
  and goes to \<open>/carrito\<close>, while, with the menu open, every link of the mobile menu
  closes it and goes to its own target. On a small screen the menu stays open over the cart page.
\<close>

theorem cart_icon_keeps_menu:
  assumes "app_step CartIcon s = Some s1"
    and "menu_open s" and "i < length nav_links" and "app_step (MobileLink i) s = Some s2"
  shows "menu_open s1 = menu_open s \<and> location s1 = cart_link
    \<and> \<not> menu_open s2 \<and> location s2 = nav_links ! i"
  using assms navigate_menu [of cart_link s s1] navigate_menu [of "nav_links ! i" "s\<lparr>menu_open := False\<rparr>" s2]
  by simp

theorem cart_icon_keeps_menu_witness:
  "(1::nat) < length nav_links
   \<and> menu_open (the (app_step CartIcon
        \<lparr>menu_open = True, location = ''/'', header_cart = empty_cart, page_cart = empty_cart,
         browser = world0\<rparr>))
   \<and> \<not> menu_open (the (app_step (MobileLink 1)
        \<lparr>menu_open = True, location = ''/'', header_cart = empty_cart, page_cart = empty_cart,
         browser = world0\<rparr>))"
proof -
  let ?s = "\<lparr>menu_open = True, location = ''/'', header_cart = (empty_cart :: ref_cart),
             page_cart = empty_cart, browser = world0\<rparr>"
  have m: "mount_cart world0 = Inr (empty_cart, world0)"
    by (simp add: mount_cart_def getCartFromStorage_def world0_def)
  have i: "(1::nat) < length nav_links" "nav_links ! 1 = ''/tienda''"
    by (simp_all add: nav_links_def)
  have r: "route_entry (route ''/tienda'') \<noteq> route_entry (route ''/'')"
    "route_entry (route cart_link) \<noteq> route_entry (route ''/'')"
    by (simp_all add: route_entry_def route_def path_segments_def app_routes_def lower_ascii_def cart_link_def)
  have s1: "app_step CartIcon ?s = Some (the (app_step CartIcon ?s))"
    and s2: "app_step (MobileLink 1) ?s = Some (the (app_step (MobileLink 1) ?s))"
    using r i by (simp_all add: navigate_def m)
  from cart_icon_keeps_menu [OF s1 _ i(1) s2] i show ?thesis
    by simp
qed

end
