(* ===== verification/WooClient.thy ===== *)
theory WooClient
  imports JsonValue
begin

text \<open>
  The WooCommerce REST client of \<open>src/src/services/woocommerce.ts\<close> (lines 1--102):
  the configuration read from the build environment, the \<open>axios\<close> instance built from
  it, and the seven catalogue and order operations. The network is an interface: a
  transport is any function from a request to the rejection of \<open>axios\<close> (an error of
  an arbitrary type \<open>'e\<close>) or the parsed \<open>response.data\<close>, so every lemma holds for
  every server and every failure. \<open>console.error\<close> only logs and is not modelled.
\<close>

section \<open>Configuration and the axios instance\<close>

text \<open>\<open>import.meta.env\<close>: the variables Vite substitutes at build time, as texts.\<close>

type_synonym env = "string \<Rightarrow> string option"

text \<open>\<open>import.meta.env.K || d\<close>: an unset or empty variable gives the default.\<close>

definition env_or :: "env \<Rightarrow> string \<Rightarrow> string \<Rightarrow> string" where
  "env_or e k d = (case e k of None \<Rightarrow> d | Some s \<Rightarrow> if s = [] then d else s)"

record wc_config =
  base_url :: string
  consumer_key :: string
  consumer_secret :: string

definition wc_config_of :: "env \<Rightarrow> wc_config" where
  "wc_config_of e =
     \<lparr>base_url = env_or e ''VITE_WC_API_BASE_URL'' ''https://tu-dominio.com/wp-json/wc/v3'',
      consumer_key = env_or e ''VITE_WC_CONSUMER_KEY'' '''',
      consumer_secret = env_or e ''VITE_WC_CONSUMER_SECRET'' ''''\<rparr>"

text \<open>The options given to \<open>axios.create\<close>.\<close>

record axios_instance =
  ax_base :: string
  ax_auth :: "string \<times> string"
  ax_headers :: "(string \<times> string) list"

definition wcApi :: "env \<Rightarrow> axios_instance" where
  "wcApi e =
     (let c = wc_config_of e in
      \<lparr>ax_base = base_url c, ax_auth = (consumer_key c, consumer_secret c),
       ax_headers = [(''Content-Type'', ''application/json'')]\<rparr>)"

section \<open>Requests and transports\<close>

datatype http_method = GET | POST

text \<open>
  A request as \<open>axios\<close> hands it to the network: the instance's defaults, the path,
  the \<open>params\<close> object (\<open>undefined\<close> when none is given) and the body.
\<close>

record request =
  req_method :: http_method
  req_base :: string
  req_auth :: "string \<times> string"
  req_headers :: "(string \<times> string) list"
  req_path :: string
  req_params :: jsval
  req_body :: jsval

definition ax_get :: "axios_instance \<Rightarrow> string \<Rightarrow> jsval \<Rightarrow> request" where
  "ax_get ax path params =
     \<lparr>req_method = GET, req_base = ax_base ax, req_auth = ax_auth ax, req_headers = ax_headers ax,
      req_path = path, req_params = params, req_body = JUndef\<rparr>"

definition ax_post :: "axios_instance \<Rightarrow> string \<Rightarrow> jsval \<Rightarrow> request" where
  "ax_post ax path body =
     \<lparr>req_method = POST, req_base = ax_base ax, req_auth = ax_auth ax, req_headers = ax_headers ax,
      req_path = path, req_params = JUndef, req_body = body\<rparr>"

text \<open>The interface to the network: a rejection, or the parsed \<open>response.data\<close>.\<close>

type_synonym 'e transport = "request \<Rightarrow> 'e + jsval"

section \<open>JavaScript operators on values\<close>

text \<open>
  \<open>v[n]\<close> for an array index \<open>n\<close>: \<open>None\<close> is the \<open>TypeError\<close> thrown on
  \<open>undefined\<close> and \<open>null\<close>; a missing element or property reads as \<open>undefined\<close>.
\<close>

fun js_member :: "jsval \<Rightarrow> nat \<Rightarrow> jsval option" where
  "js_member JUndef n = None"
| "js_member JNull n = None"
| "js_member (JArray vs) n = Some (if n < length vs then vs ! n else JUndef)"
| "js_member (JObject ps) n = Some (case map_of ps (show_nat n) of None \<Rightarrow> JUndef | Some v \<Rightarrow> v)"
| "js_member (JString s) n = Some (if n < length s then JString [s ! n] else JUndef)"
| "js_member _ n = Some JUndef"

text \<open>ToBoolean: \<open>undefined\<close>, \<open>null\<close>, \<open>false\<close>, \<open>0\<close>, \<open>NaN\<close> and \<open>''''\<close> are falsy.\<close>

fun js_truthy :: "jsval \<Rightarrow> bool" where
  "js_truthy JUndef = False"
| "js_truthy JNull = False"
| "js_truthy (JBool b) = b"
| "js_truthy (JNumber n) = (n \<noteq> Fin 0 \<and> n \<noteq> NaN)"
| "js_truthy (JString s) = (s \<noteq> [])"
| "js_truthy (JArray vs) = True"
| "js_truthy (JObject ps) = True"

text \<open>\<open>a || b\<close>.\<close>

definition js_or :: "jsval \<Rightarrow> jsval \<Rightarrow> jsval" where
  "js_or a b = (if js_truthy a then a else b)"

section \<open>The operations of WooCommerceAPI\<close>

text \<open>
  Each operation awaits one request. The reads catch every rejection and return an empty
  list (or \<open>null\<close>); \<open>getProduct\<close>, \<open>createOrder\<close> and \<open>getOrder\<close> rethrow it.
  The result is the promise's rejection (\<open>Inl\<close>) or its value.
\<close>

definition getProducts :: "'e transport \<Rightarrow> axios_instance \<Rightarrow> jsval \<Rightarrow> 'e + jsval" where
  "getProducts tr ax params =
     (case tr (ax_get ax ''/products'' params) of
        Inr d \<Rightarrow> Inr d
      | Inl err \<Rightarrow> Inr (JArray []))"

definition getProduct :: "'e transport \<Rightarrow> axios_instance \<Rightarrow> int \<Rightarrow> 'e + jsval" where
  "getProduct tr ax i =
     (case tr (ax_get ax (''/products/'' @ show_int i) JUndef) of
        Inr d \<Rightarrow> Inr d
      | Inl err \<Rightarrow> Inl err)"

text \<open>
  \<open>response.data[0] || null\<close> inside the \<open>try\<close>: indexing a \<open>null\<close> body throws,
  and the \<open>catch\<close> turns that into \<open>null\<close> as well.
\<close>

definition getProductBySlug :: "'e transport \<Rightarrow> axios_instance \<Rightarrow> string \<Rightarrow> 'e + jsval" where
  "getProductBySlug tr ax slug =
     (case tr (ax_get ax ''/products'' (JObject [(''slug'', JString slug)])) of
        Inr d \<Rightarrow> (case js_member d 0 of None \<Rightarrow> Inr JNull | Some v \<Rightarrow> Inr (js_or v JNull))
      | Inl err \<Rightarrow> Inr JNull)"

definition getCategories :: "'e transport \<Rightarrow> axios_instance \<Rightarrow> 'e + jsval" where
  "getCategories tr ax =
     (case tr (ax_get ax ''/products/categories'' JUndef) of
        Inr d \<Rightarrow> Inr d
      | Inl err \<Rightarrow> Inr (JArray []))"

definition getProductVariations :: "'e transport \<Rightarrow> axios_instance \<Rightarrow> int \<Rightarrow> 'e + jsval" where
  "getProductVariations tr ax pid =
     (case tr (ax_get ax (''/products/'' @ show_int pid @ ''/variations'') JUndef) of
        Inr d \<Rightarrow> Inr d
      | Inl err \<Rightarrow> Inr (JArray []))"

definition createOrder :: "'e transport \<Rightarrow> axios_instance \<Rightarrow> jsval \<Rightarrow> 'e + jsval" where
  "createOrder tr ax orderData =
     (case tr (ax_post ax ''/orders'' orderData) of
        Inr d \<Rightarrow> Inr d
      | Inl err \<Rightarrow> Inl err)"

definition getOrder :: "'e transport \<Rightarrow> axios_instance \<Rightarrow> int \<Rightarrow> 'e + jsval" where
  "getOrder tr ax i =
     (case tr (ax_get ax (''/orders/'' @ show_int i) JUndef) of
        Inr d \<Rightarrow> Inr d
      | Inl err \<Rightarrow> Inl err)"

text \<open>A transport on which every request fails, as in the spec's offline tests.\<close>

definition offline :: "'e \<Rightarrow> 'e transport" where
  "offline err = (\<lambda>r. Inl err)"

section \<open>Lemmas\<close>

lemma js_or_null_cases: "js_or v JNull = JNull \<or> js_truthy (js_or v JNull)"
  by (simp add: js_or_def)

section \<open>The error policy\<close>

text \<open>
  C15. The four reads (\<open>getProducts\<close>, \<open>getProductBySlug\<close>,
  \<open>getCategories\<close>, \<open>getProductVariations\<close>) never reject, whatever the transport
  answers: the spec's degrade-on-read policy (section 7).
\<close>

theorem reads_never_reject:
  "\<not> isl (getProducts tr ax params) \<and> \<not> isl (getProductBySlug tr ax slug)
   \<and> \<not> isl (getCategories tr ax) \<and> \<not> isl (getProductVariations tr ax pid)"
  by (simp add: getProducts_def getProductBySlug_def getCategories_def getProductVariations_def
      split: sum.splits option.splits)

text \<open>
  C16. When every request fails, the list reads return the empty list and the lookup by
  slug returns \<open>null\<close> (spec section 8, reads under simulated transport failure).
\<close>

theorem reads_offline:
  "getProducts (offline err) ax params = Inr (JArray [])
   \<and> getProductBySlug (offline err) ax slug = Inr JNull
   \<and> getCategories (offline err) ax = Inr (JArray [])
   \<and> getProductVariations (offline err) ax pid = Inr (JArray [])"
  by (simp add: offline_def getProducts_def getProductBySlug_def getCategories_def
      getProductVariations_def)

text \<open>
  C17. \<open>createOrder\<close> and \<open>getOrder\<close> send one request each and return exactly what
  the transport gives: a rejection reaches the caller unmodified, a response is returned
  as it is.
\<close>

theorem writes_propagate:
  "createOrder tr ax orderData = tr (ax_post ax ''/orders'' orderData)
   \<and> getOrder tr ax i = tr (ax_get ax (''/orders/'' @ show_int i) JUndef)"
  by (simp add: createOrder_def getOrder_def split: sum.splits)

text \<open>
  C18. Finding: \<open>getProduct\<close> rethrows a transport failure, while the spec (sections
  5 and 7) lists fetching one product by identifier among the reads that return \<open>null\<close>
  instead of failing the caller.
\<close>

theorem getProduct_rejects_offline: "getProduct (offline err) ax i = Inl err"
  by (simp add: offline_def getProduct_def)

text \<open>
  C19. \<open>getProductBySlug\<close> never rejects and its value is \<open>null\<close> or a truthy
  value: \<open>undefined\<close> and the falsy values never reach the caller, also when the
  response body is \<open>null\<close> and indexing it throws inside the \<open>try\<close>.
\<close>

theorem getProductBySlug_null_or_truthy:
  "\<exists>v. getProductBySlug tr ax slug = Inr v \<and> (v = JNull \<or> js_truthy v)"
  by (auto simp: getProductBySlug_def js_or_null_cases split: sum.splits option.splits)

text \<open>
  C20. When the server answers the slug query with a list whose first element is truthy,
  \<open>getProductBySlug\<close> returns that first element.
\<close>

theorem getProductBySlug_first:
  assumes "tr (ax_get ax ''/products'' (JObject [(''slug'', JString slug)])) = Inr (JArray (v # vs))"
    and "js_truthy v"
  shows "getProductBySlug tr ax slug = Inr v"
  using assms by (simp add: getProductBySlug_def js_or_def)

theorem getProductBySlug_first_witness:
  "getProductBySlug (\<lambda>r. Inr (JArray [JObject [(''slug'', JString (req_path r))]])) (wcApi Map.empty) ''x''
   = (Inr (JObject [(''slug'', JString ''/products'')]) :: unit + jsval)"
proof -
  have "getProductBySlug (\<lambda>r. Inr (JArray [JObject [(''slug'', JString (req_path r))]]) :: unit + jsval) (wcApi Map.empty) ''x''
     = Inr (JObject [(''slug'', JString (req_path (ax_get (wcApi Map.empty) ''/products'' (JObject [(''slug'', JString ''x'')]))))])"
    by (rule getProductBySlug_first) simp_all
  then show ?thesis
    by (simp add: ax_get_def)
qed

text \<open>
  C21. Finding: the module reads \<open>VITE_WC_API_BASE_URL\<close>,
  \<open>VITE_WC_CONSUMER_KEY\<close> and \<open>VITE_WC_CONSUMER_SECRET\<close> with \<open>||\<close>, so
  a variable set to the empty string counts as unset: for every environment and every
  variable, setting it to \<open>''\<close> gives the same client as removing it. An empty URL
  silently becomes the placeholder \<open>https://tu-dominio.com/wp-json/wc/v3\<close>, and
  nothing reports missing credentials.
\<close>

theorem config_empty_is_unset: "wcApi (e(k \<mapsto> [])) = wcApi (e(k := None))"
  by (simp add: wcApi_def wc_config_of_def env_or_def)

end
