(* ===== verification/Spec2Isabelle.thy ===== *)
theory Spec2Isabelle
  imports AppShell WooClient
begin

text \<open>
  \<^bold>\<open>A verification development of the AFPets storefront.\<close>

  The repository is a React front end. \<open>src/src/App.tsx\<close> holds the route table and
  the mobile-menu state; \<open>src/src/components/Header.tsx\<close> draws the navigation and the
  cart badge. The cart logic is the hook \<open>useCart\<close> (\<open>src/src/hooks/useCart.ts\<close>). It
  keeps a cart in React state and persists it through \<open>WooCommerceAPI.updateCart\<close> and
  \<open>WooCommerceAPI.getCartFromStorage\<close> (\<open>src/src/services/woocommerce.ts\<close>) in
  \<open>localStorage\<close>. The same class wraps the WooCommerce REST API, configured from the
  build environment. Every component that calls \<open>useCart\<close> gets its own instance; the
  instances share only \<open>localStorage\<close>.

  \<^bold>\<open>Theories and what they model.\<close>
  \<^item> \<open>Prelude\<close>: references as indices into a heap list, \<open>Array.prototype.findIndex\<close>
    (\<open>findIndex\<close>, over the search \<open>find_idx\<close>), and the list lemmas the proofs
    share.
  \<^item> \<open>JsNum\<close>: JavaScript numbers (\<open>jsnum\<close>: exact rationals, the infinities, NaN) with
    \<open>comm_monoid_add\<close>/\<open>comm_monoid_mult\<close> instances, the relational operators and
    \<open>===\<close>, number-to-text conversion (\<open>show_nat\<close>, \<open>show_int\<close>, injective), and
    \<open>parseFloat\<close> (JavaScript's \<open>StrDecimalLiteral\<close> prefix rule).
  \<^item> \<open>JsonValue\<close>: JavaScript values (\<open>jsval\<close>) and JSON documents (\<open>json\<close>).
    \<open>json_of\<close> is \<open>JSON.stringify\<close> (property order, omitted \<open>undefined\<close>,
    non-finite numbers as \<open>null\<close>) and \<open>of_json\<close> is \<open>JSON.parse\<close>; printing a
    parsed canonical document gives it back.
  \<^item> \<open>CartModel\<close>: the records \<open>product\<close>, \<open>cart_item\<close>, \<open>'i cart\<close> (from the spec:
    \<open>src/types/product.ts\<close> is not in the sources). The browser is the record
    \<open>world\<close>: a heap of item objects, \<open>localStorage\<close>, a flag that makes
    \<open>setItem\<close> throw, and the clock. Also here: \<open>updateCart\<close> (aggregates by
    \<open>reduce\<close>, \<open>total\<close>, the write), \<open>getCartFromStorage\<close> (parse and fresh objects),
    and the round trip of a stored cart (\<open>cart_back\<close>).
  \<^item> \<open>CartSpec\<close>: the cart operations on item values (\<open>spec_add\<close>,
    \<open>spec_remove\<close>, \<open>spec_update\<close>, \<open>spec_step\<close> over the datatype \<open>cart_op\<close>),
    which are the abstract specification, and the invariant of spec section 3
    (\<open>cart_ok\<close>). Its claims: merging of repeated adds (C7; it needs the associativity of
    \<open>+\<close>, which exact rationals have and doubles have only up to rounding), what a key determines (C8), and line matching by
    the serialised variation (C9).
  \<^item> \<open>UseCart\<close>: \<open>addToCart\<close>, \<open>removeFromCart\<close>, \<open>updateQuantity\<close>,
    \<open>clearCart\<close> over the heap, with the in-place mutation of \<open>addToCart\<close> kept.
    \<open>hook_step\<close> is one operation per render (\<open>setCart\<close> only on success);
    \<open>run_batch\<close> is several operations from one render's closure. Proved here: the
    refinement of the abstract operations for one step (C1) and for any sequence of
    renders (C3), the invariant (C2), the error path (C4), the findings C5 and C6, and a
    frame property (what each operation may write).
  \<^item> \<open>WooClient\<close>: the configuration with its \<open>||\<close> defaults, the \<open>axios\<close>
    instance, and the seven API operations over an arbitrary transport (an interface:
    request to rejection or \<open>response.data\<close>). Proved here: the read/write error policy
    and the lookup by slug (C15--C20), and the empty-variable defaults (C21).
  \<^item> \<open>AppShell\<close>: react-router matching of the route table, the Header's links and
    badge, and the application as a step function on events (\<open>app_step\<close>: the menu
    toggle, each desktop and mobile navigation link by its index in \<open>navigation\<close>, the
    cart icon, in-page links, page cart operations, reload). Reachable states are an inductive predicate
    (\<open>app_reach\<close>), with the separation invariant of the two \<open>useCart\<close> instances
    (\<open>app_inv\<close>) proved by rule induction. Claims C22--C26 and the menu (C27).
  \<^item> This theory: properties across the hook, the store and the spec. These are the
    NaN-price finding (C10), \<open>updateQuantity(key, 0)\<close>, removal of an absent key and
    \<open>clear\<close> through the hook (C11--C13), and the reload round trip (C14).

  \<^bold>\<open>Modelling choices.\<close> Item objects live on a heap (a list; references are
  indices) because \<open>addToCart\<close> mutates in place the object found by \<open>findIndex\<close>,
  which the current state still holds. Every operation returns the error its promise
  rejects with (\<open>Inl\<close>) or the cart passed to \<open>setCart\<close>; heap writes made before a
  failure stay. Promises are awaited in program order; \<open>run_batch\<close> models the
  interleaving of several operations of one render. \<open>localStorage\<close> holds JSON trees,
  not text; \<open>null\<close> in a number field reads as \<open>0\<close> (the value it takes in
  arithmetic). A stored value that is not a cart of this shape is the error
  \<open>MalformedStoredCart\<close>, where the JavaScript code would go on with an ill-typed
  object. Numbers are exact rationals: rounding of IEEE doubles is not modelled, only
  their special values. \<open>Date.now()\<close> is the field \<open>clock\<close>, constant within a
  run. No definition needs fuel: every loop of the code is a structural recursion.

  \<^bold>\<open>Findings.\<close> The first group are bugs of the hook:
  \<^item> a failed write after a merge leaves the state inconsistent (C5);
  \<^item> operations from one render lose each other's new lines (C6);
  \<^item> keys of the same product collide within one millisecond (C8);
  \<^item> variations compare by property order (C9);
  \<^item> an unparsable price poisons the totals, and a reload hides it (C10).
  Then the client and the app:
  \<^item> \<open>getProduct\<close> rethrows where the spec asks for \<open>null\<close> (C18);
  \<^item> an empty configuration variable counts as unset, silently targeting a placeholder
    host (C21);
  \<^item> the Header's badge is a separate \<open>useCart\<close> instance and stays stale until a reload
    (C22, C24);
  \<^item> the cart icon does not close the mobile menu, unlike the mobile links (C27).

  \<^bold>\<open>Not modelled.\<close>
  \<^item> The pages and the Footer are not in the sources. The routed page is one
    \<open>useCart\<close> instance that may run any cart operation.
  \<^item> Rendering, CSS classes and icons are not modelled.
  \<^item> \<open>console.error\<close> only logs. The \<open>QueryClientProvider\<close> is never used by the
    sources.
  \<^item> The HTTP transport and the server are external: they are the parameter of the
    client's lemmas.
  \<^item> URL decoding of route parameters is not modelled.
\<close>

section \<open>Properties across the hook, the store and the spec\<close>

text \<open>
  C12. \<open>removeFromCart\<close> of a key that no line has leaves the cart value unchanged
  (spec section 8), when the cart satisfies the invariant and the write succeeds.
\<close>

theorem remove_absent_unchanged:
  assumes "hook_inv (c, w)" and "\<not> storage_full w"
    and "k \<notin> set (map key (items (cart_value w c)))"
  shows "cart_value (snd (hook_step (RemoveFromCart k) (c, w))) (fst (hook_step (RemoveFromCart k) (c, w)))
         = cart_value w c"
proof -
  have "refs_ok w (items c)" "cart_ok (cart_value w c)"
    using assms(1) by (simp_all add: hook_inv_def)
  moreover have "spec_remove k (map ((!) (heap w)) (items c)) = map ((!) (heap w)) (items c)"
    using assms(3) by (simp add: spec_remove_absent)
  ultimately show ?thesis
    using hook_step_value [of "(c, w)" "RemoveFromCart k"] assms(2)
    by (simp add: spec_cart_items flip: cart_value_items)
qed

theorem remove_absent_unchanged_witness:
  "hook_inv (fst (hook_step (AddToCart productA (Fin 2) JUndef) ((empty_cart :: ref_cart), world0)),
             snd (hook_step (AddToCart productA (Fin 2) JUndef) ((empty_cart :: ref_cart), world0)))
   \<and> \<not> storage_full (snd (hook_step (AddToCart productA (Fin 2) JUndef) ((empty_cart :: ref_cart), world0)))
   \<and> ''none'' \<notin> set (map key (items (hook_value (hook_step (AddToCart productA (Fin 2) JUndef)
                                                  ((empty_cart :: ref_cart), world0)))))
   \<and> hook_value (hook_step (RemoveFromCart ''none'') (hook_step (AddToCart productA (Fin 2) JUndef) ((empty_cart :: ref_cart), world0)))
       = hook_value (hook_step (AddToCart productA (Fin 2) JUndef) ((empty_cart :: ref_cart), world0))"
proof -
  let ?s = "hook_step (AddToCart productA (Fin 2) JUndef) ((empty_cart :: ref_cart), world0)"
  have h1: "hook_inv (fst ?s, snd ?s)"
    by (simp add: eval_simps hook_inv_def refs_ok_def cart_ok_def totals_ok_def)
  have h2: "\<not> storage_full (snd ?s)"
    by (simp add: eval_simps)
  have h3: "''none'' \<notin> set (map key (items (hook_value ?s)))"
    by (simp add: eval_simps)
  show ?thesis
    using remove_absent_unchanged [OF h1 h2 h3] h1 h2 h3 by simp
qed

text \<open>
  C11. \<open>updateQuantity(key, 0)\<close> on a line of the cart removes exactly that line and
  keeps the invariant (spec section 8), when keys are distinct and the write succeeds.
\<close>

theorem update_zero_removes:
  assumes "hook_inv (c, w)" and "\<not> storage_full w"
    and "distinct (map key (items (cart_value w c)))" and "i < length (items c)"
  shows "items (cart_value (snd (hook_step (UpdateQuantity (key (heap w ! (items c ! i))) (Fin 0)) (c, w)))
                  (fst (hook_step (UpdateQuantity (key (heap w ! (items c ! i))) (Fin 0)) (c, w))))
         = take i (items (cart_value w c)) @ drop (Suc i) (items (cart_value w c))
       \<and> hook_inv (hook_step (UpdateQuantity (key (heap w ! (items c ! i))) (Fin 0)) (c, w))"
proof -
  let ?xs = "map ((!) (heap w)) (items c)"
  let ?op = "UpdateQuantity (key (heap w ! (items c ! i))) (Fin 0)"
  have ok: "refs_ok w (items c)" and lines: "lines_ok ?xs"
    using assms(1) by (simp_all add: hook_inv_def cart_value_items_ok)
  have rem: "spec_step (clock w) ?op ?xs = take i ?xs @ drop (Suc i) ?xs"
    using filter_remove_nth [of key ?xs i] assms(3,4)
    by (simp add: spec_update_def spec_remove_def js_le_def)
  have "set (take i ?xs @ drop (Suc i) ?xs) \<subseteq> set ?xs"
    by (auto dest: in_set_takeD in_set_dropD)
  with lines have "lines_ok (take i ?xs @ drop (Suc i) ?xs)"
    by (rule lines_ok_subset)
  then have "cart_ok (spec_cart (take i ?xs @ drop (Suc i) ?xs))"
    by (rule spec_cart_ok)
  with hook_step_value [of "(c, w)" ?op] ok assms(2) rem show ?thesis
    by (simp add: hook_inv_def spec_cart_def)
qed

theorem update_zero_removes_witness:
  "hook_inv (fst (hook_step (AddToCart productA (Fin 2) JUndef) ((empty_cart :: ref_cart), world0)),
             snd (hook_step (AddToCart productA (Fin 2) JUndef) ((empty_cart :: ref_cart), world0)))
   \<and> \<not> storage_full (snd (hook_step (AddToCart productA (Fin 2) JUndef) ((empty_cart :: ref_cart), world0)))
   \<and> items (hook_value (hook_step (UpdateQuantity ''1-1000'' (Fin 0))
         (hook_step (AddToCart productA (Fin 2) JUndef) ((empty_cart :: ref_cart), world0)))) = []"
proof -
  let ?s = "hook_step (AddToCart productA (Fin 2) JUndef) ((empty_cart :: ref_cart), world0)"
  have h1: "hook_inv (fst ?s, snd ?s)"
    by (simp add: eval_simps hook_inv_def refs_ok_def cart_ok_def totals_ok_def)
  have h2: "\<not> storage_full (snd ?s)"
    by (simp add: eval_simps)
  have h3: "distinct (map key (items (cart_value (snd ?s) (fst ?s))))" "0 < length (items (fst ?s))"
    by (simp_all add: eval_simps)
  have k: "key (heap (snd ?s) ! (items (fst ?s) ! 0)) = ''1-1000''" "length (items (fst ?s)) = 1"
    by (simp_all add: eval_simps)
  show ?thesis
    using update_zero_removes [OF h1 h2 h3] h1 h2 k(2) unfolding k(1) by simp
qed

text \<open>
  C13. \<open>clearCart\<close> always yields the empty cart with every aggregate 0 (spec section 8),
  when the write succeeds.
\<close>

theorem clear_yields_zero_cart:
  assumes "\<not> storage_full w"
  shows "cart_value (snd (hook_step ClearCart (c, w))) (fst (hook_step ClearCart (c, w)))
         = \<lparr>items = [], item_count = Fin 0, subtotal = Fin 0, shipping_total = Fin 0,
            tax_total = Fin 0, total = Fin 0\<rparr>"
  using assms
  by (simp add: hook_step_def clearCart_def persist_def updateCart_eq cart_totals_def
      cart_value_def map_items_def)

theorem clear_yields_zero_cart_witness:
  "\<not> storage_full world0
   \<and> hook_value (hook_step ClearCart ((empty_cart :: ref_cart), world0))
       = \<lparr>items = [], item_count = Fin 0, subtotal = Fin 0, shipping_total = Fin 0,
          tax_total = Fin 0, total = Fin 0\<rparr>"
proof -
  have h: "\<not> storage_full world0"
    by (simp add: world0_def)
  show ?thesis
    using clear_yields_zero_cart [OF h, of empty_cart] h by simp
qed

text \<open>
  C14. After an operation whose write succeeded, reading \<open>localStorage\<close> back (a remount
  or a reload) gives fresh, distinct item objects whose value is what the hook shows, up to
  the JSON round trip of its numbers and variations (\<open>cart_back\<close>).
\<close>

theorem reload_after_step:
  assumes "hook_inv (c, w)" and "\<not> storage_full w"
  shows "\<exists>c' w'. getCartFromStorage (snd (hook_step op (c, w))) = Inr (c', w')
           \<and> refs_ok w' (items c') \<and> cart_value w' c' = cart_back (hook_value (hook_step op (c, w)))"
proof -
  have "refs_ok w (items c)"
    using assms(1) by (simp add: hook_inv_def)
  with hook_step_value [of "(c, w)" op] assms(2)
  have "storage (snd (hook_step op (c, w))) cart_key = Some (stored_cart (hook_value (hook_step op (c, w))))"
    by simp
  from getCartFromStorage_stored [OF this] show ?thesis
    by (auto dest: getCartFromStorage_refs_ok)
qed

theorem reload_after_step_witness:
  "hook_inv ((empty_cart :: ref_cart), world0) \<and> \<not> storage_full world0
   \<and> (\<exists>c' w'. getCartFromStorage (snd (hook_step (AddToCart productA (Fin 2) JUndef) (empty_cart, world0)))
               = Inr (c', w')
           \<and> refs_ok w' (items c')
           \<and> cart_value w' c' = cart_back (hook_value (hook_step (AddToCart productA (Fin 2) JUndef) (empty_cart, world0))))"
proof -
  have h1: "hook_inv ((empty_cart :: ref_cart), world0)"
    by (simp add: hook_inv_def refs_ok_def empty_cart_def cart_ok_def totals_ok_def
        cart_value_def map_items_def)
  have h2: "\<not> storage_full world0"
    by (simp add: world0_def)
  show ?thesis
    using h1 h2 reload_after_step [OF h1 h2, of "AddToCart productA (Fin 2) JUndef"] by blast
qed

text \<open>
  C10. Finding: \<open>addToCart\<close> takes the price with \<open>parseFloat(product.price)\<close>
  and does not validate it. From any sound state with a writable \<open>localStorage\<close>,
  adding a product whose price text parses to NaN as a new line makes the subtotal NaN, so
  the spec's \<open>total == subtotal + shipping_total + tax_total\<close> is false under
  \<open>===\<close>; the write stores \<open>null\<close> for the NaN aggregates, and the remount reads
  them back as 0, whatever the other lines cost.
\<close>

theorem nan_price_poisons_totals:
  assumes ok: "refs_ok w (items c)" and nf: "\<not> storage_full w"
    and nan: "parseFloat (prod_price p) = NaN"
    and new: "find_idx (same_line p v) (items (hook_value (c, w))) = None"
  shows "subtotal (hook_value (hook_step (AddToCart p q v) (c, w))) = NaN
    \<and> \<not> js_strict_eq (total (hook_value (hook_step (AddToCart p q v) (c, w))))
          (subtotal (hook_value (hook_step (AddToCart p q v) (c, w)))
           + shipping_total (hook_value (hook_step (AddToCart p q v) (c, w)))
           + tax_total (hook_value (hook_step (AddToCart p q v) (c, w))))
    \<and> (\<exists>c' w'. getCartFromStorage (snd (hook_step (AddToCart p q v) (c, w))) = Inr (c', w')
          \<and> subtotal (cart_value w' c') = Fin 0 \<and> total (cart_value w' c') = Fin 0)"
proof -
  let ?s = "hook_step (AddToCart p q v) (c, w)"
  let ?xs = "items (hook_value (c, w))"
  have v: "hook_value ?s = spec_cart (?xs @ [new_item p q v (clock w)])"
    and st: "storage (snd ?s) cart_key = Some (stored_cart (hook_value ?s))"
    using hook_step_value [of "(c, w)" "AddToCart p q v"] ok nf new by (simp_all add: spec_add_def)
  have "price (new_item p q v (clock w)) = NaN"
    using nan by (simp add: new_item_def)
  then have sub: "subtotal (hook_value ?s) = NaN" "total (hook_value ?s) = NaN"
    unfolding v by (simp_all add: spec_cart_def del: cart_value_items)
  moreover obtain c' w' where "getCartFromStorage (snd ?s) = Inr (c', w')"
    "cart_value w' c' = cart_back (hook_value ?s)"
    using getCartFromStorage_stored [OF st] by blast
  ultimately show ?thesis
    by (simp add: cart_back_def num_back_def)
qed

theorem nan_price_poisons_totals_witness:
  "subtotal (hook_value (hook_step (AddToCart productN (Fin 1) JUndef) ((empty_cart :: ref_cart), world0))) = NaN
   \<and> (\<exists>c' w'. getCartFromStorage (snd (hook_step (AddToCart productN (Fin 1) JUndef)
                      ((empty_cart :: ref_cart), world0))) = Inr (c', w')
          \<and> subtotal (cart_value w' c') = Fin 0 \<and> total (cart_value w' c') = Fin 0)"
proof -
  have h: "refs_ok world0 (items (empty_cart :: ref_cart))" "\<not> storage_full world0"
    "parseFloat (prod_price productN) = NaN"
    "find_idx (same_line productN JUndef) (items (hook_value ((empty_cart :: ref_cart), world0))) = None"
    by (simp_all add: refs_ok_def empty_cart_def example_defs cart_value_def map_items_def)
  from nan_price_poisons_totals [OF h, of "Fin 1"] show ?thesis
    by blast
qed

end
